theory Spec2Isabelle
  imports Main "HOL-Library.Sublist"
begin

section \<open>Python string primitives used by \<open>utils/utils.py\<close>\<close>

text \<open>
  A Python \<open>str\<close> is modelled as a \<open>string\<close>, each \<open>char\<close> standing for one code
  point below 256. The test \<open>sub in s\<close> is \<^const>\<open>sublist\<close>, \<open>s.startswith(sub)\<close> is
  \<^const>\<open>prefix\<close> and \<open>s.endswith(sub)\<close> is \<^const>\<open>suffix\<close>.
\<close>

definition is_linebreak :: "char \<Rightarrow> bool" where
  \<comment> \<open>the line boundaries of \<open>str.splitlines\<close> among the code points below 256\<close>
  "is_linebreak c \<longleftrightarrow>
     c \<in> {CHR 0x0A, CHR 0x0B, CHR 0x0C, CHR 0x0D, CHR 0x1C, CHR 0x1D, CHR 0x1E, CHR 0x85}"

fun splitlines_from :: "string \<Rightarrow> string \<Rightarrow> string list" where
  \<comment> \<open>\<open>cur\<close> is the part of the current line read so far; a carriage return followed by a
      line feed is one boundary; no empty line is produced after a final boundary\<close>
  "splitlines_from cur [] = (if cur = [] then [] else [cur])"
| "splitlines_from cur [c] = (if is_linebreak c then [cur] else [cur @ [c]])"
| "splitlines_from cur (c # d # cs) =
     (if c = CHR 0x0D \<and> d = CHR 0x0A then cur # splitlines_from [] cs
      else if is_linebreak c then cur # splitlines_from [] (d # cs)
      else splitlines_from (cur @ [c]) (d # cs))"

definition splitlines :: "string \<Rightarrow> string list" where
  "splitlines s = splitlines_from [] s"

fun join :: "string \<Rightarrow> string list \<Rightarrow> string" where
  \<comment> \<open>\<open>sep.join(xs)\<close>\<close>
  "join sep [] = []"
| "join sep [x] = x"
| "join sep (x # y # ys) = x @ sep @ join sep (y # ys)"

fun py_replace_ne :: "string \<Rightarrow> string \<Rightarrow> string \<Rightarrow> string" where
  \<comment> \<open>\<open>s.replace(old, new)\<close> for a non-empty \<open>old\<close>: leftmost occurrences first, the scan
      resuming after each replaced occurrence\<close>
  "py_replace_ne old new [] = []"
| "py_replace_ne old new (c # cs) =
     (if prefix old (c # cs) then new @ py_replace_ne old new (drop (length old - 1) cs)
      else c # py_replace_ne old new cs)"

definition py_replace :: "string \<Rightarrow> string \<Rightarrow> string \<Rightarrow> string" where
  \<comment> \<open>\<open>s.replace(old, new)\<close>; an empty \<open>old\<close> matches before every character and at the end\<close>
  "py_replace s old new =
     (if old = [] then new @ concat (map (\<lambda>c. c # new) s) else py_replace_ne old new s)"

fun py_find :: "string \<Rightarrow> string \<Rightarrow> int" where
  \<comment> \<open>\<open>s.find(sub)\<close>: the lowest index of an occurrence, \<open>-1\<close> if there is none\<close>
  "py_find sub [] = (if sub = [] then 0 else - 1)"
| "py_find sub (c # cs) =
     (if prefix sub (c # cs) then 0
      else (let r = py_find sub cs in if r < 0 then - 1 else r + 1))"

fun py_rfind :: "string \<Rightarrow> string \<Rightarrow> int" where
  \<comment> \<open>\<open>s.rfind(sub)\<close>: the highest index of an occurrence, \<open>-1\<close> if there is none\<close>
  "py_rfind sub [] = (if sub = [] then 0 else - 1)"
| "py_rfind sub (c # cs) =
     (let r = py_rfind sub cs in
      if 0 \<le> r then r + 1 else if prefix sub (c # cs) then 0 else - 1)"

definition slice_index :: "string \<Rightarrow> int \<Rightarrow> nat" where
  \<comment> \<open>how a slice bound is read: a negative bound counts from the end, and every bound is
      clipped to the string\<close>
  "slice_index s i =
     (let n = int (length s) in nat (if i < 0 then max (i + n) 0 else min i n))"

definition py_slice :: "string \<Rightarrow> int \<Rightarrow> int \<Rightarrow> string" where
  \<comment> \<open>\<open>s[i:j]\<close>\<close>
  "py_slice s i j = take (slice_index s j - slice_index s i) (drop (slice_index s i) s)"

definition path_join :: "string \<Rightarrow> string \<Rightarrow> string" where
  \<comment> \<open>\<open>os.path.join(a, b)\<close> with two components, POSIX flavour\<close>
  "path_join a b =
     (if prefix ''/'' b then b
      else if a = [] \<or> suffix ''/'' a then a @ b
      else a @ ''/'' @ b)"

definition digit_char :: "nat \<Rightarrow> char" where
  "digit_char d = ''0123456789'' ! (d mod 10)"

fun str_nat :: "nat \<Rightarrow> string" where
  "str_nat n = (if n < 10 then [digit_char n] else str_nat (n div 10) @ [digit_char n])"

declare str_nat.simps [simp del]

definition str_int :: "int \<Rightarrow> string" where
  \<comment> \<open>\<open>str(i)\<close> of an integer\<close>
  "str_int i = (if i < 0 then ''-'' @ str_nat (nat (- i)) else str_nat (nat i))"

section \<open>Code Extractor: \<open>get_code\<close>\<close>

definition fence :: string where
  "fence = ''```''"

fun get_code_loop :: "string list \<Rightarrow> string \<Rightarrow> bool \<Rightarrow> bool \<Rightarrow> string" where
  \<comment> \<open>the \<open>for\<close> loop, with the variables \<open>code\<close>, \<open>is_code\<close> and \<open>is_first_line\<close>; the
      \<open>break\<close> leaves the loop with the code gathered so far\<close>
  "get_code_loop [] code is_code is_first_line = code"
| "get_code_loop (line # rest) code is_code is_first_line =
     (if \<not> sublist fence line \<and> \<not> is_code then
        get_code_loop rest code is_code is_first_line
      else if sublist fence line \<and> \<not> is_code then
        get_code_loop rest code True True
      else if sublist fence line \<and> is_code then
        code
      else
        get_code_loop rest
          (code @ (if is_first_line then [] else [CHR 0x0A]) @ line) is_code False)"

definition get_code :: "string \<Rightarrow> string" where
  "get_code model_a_response = get_code_loop (splitlines model_a_response) [] False False"

section \<open>Path Rewriter: \<open>update_dataset_local_path\<close>\<close>

definition quote_symbol :: "string \<Rightarrow> string" where
  \<comment> \<open>the single quote if the line has one, else the double quote\<close>
  "quote_symbol line = (if sublist [CHR 0x27] line then [CHR 0x27] else [CHR 0x22])"

definition wrong_path :: "string \<Rightarrow> string" where
  \<comment> \<open>\<open>line[start + 1: end]\<close> with \<open>start\<close> and \<open>end\<close> the first and last quote\<close>
  "wrong_path line =
     (let start = py_find (quote_symbol line) line;
          end = py_rfind (quote_symbol line) line
      in py_slice line (start + 1) end)"

fun update_loop :: "string \<Rightarrow> string list \<Rightarrow> string \<Rightarrow> string" where
  \<comment> \<open>the \<open>for\<close> loop over the lines of the original code; the \<open>break\<close> follows the first
      replacement\<close>
  "update_loop path [] code = code"
| "update_loop path (line # rest) code =
     (if sublist ''.csv'' line then
        (if length (wrong_path line) > 0 then
           py_replace code line (py_replace line (wrong_path line) path)
         else update_loop path rest code)
      else update_loop path rest code)"

definition update_dataset_local_path :: "string \<Rightarrow> string \<Rightarrow> string \<Rightarrow> string" where
  "update_dataset_local_path code filename datasets_path =
     update_loop (path_join datasets_path filename) (splitlines code) code"

section \<open>Display Substituter: \<open>replace_show_with_savefig\<close>\<close>

definition replace_show_with_savefig :: "string \<Rightarrow> string \<Rightarrow> string \<Rightarrow> string" where
  "replace_show_with_savefig code ident output_images_path =
     (if sublist ''.show()'' code then
        py_replace code ''.show()''
          (''.savefig('' @ [CHR 0x22] @ path_join output_images_path (ident @ ''.png'')
             @ [CHR 0x22] @ '')'')
      else code)"

section \<open>Executor: \<open>execute_code\<close>\<close>

text \<open>
  The file system holds the contents of the files and, for each path, the error that
  opening the path for writing raises (a missing directory, a permission), the error
  that writing to it raises once it is open, with the number of characters that reach
  the file before (a full disk), and the error other than \<open>FileNotFoundError\<close> that
  removing it raises (a permission, a directory in its place). Where there is no such
  error the operation succeeds, except that removing a path at which there is no file
  raises \<open>FileNotFoundError\<close>.
\<close>

datatype other_os_error = PermissionError | IsADirectoryError | OSError

datatype os_error = FileNotFoundError | Other other_os_error

record filesystem =
  contents :: "string \<rightharpoonup> string"
  open_fault :: "string \<rightharpoonup> os_error"
  write_fault :: "string \<rightharpoonup> os_error \<times> nat"
  remove_fault :: "string \<rightharpoonup> other_os_error"

definition os_remove :: "filesystem \<Rightarrow> string \<Rightarrow> os_error option \<times> filesystem" where
  \<comment> \<open>\<open>os.remove(p)\<close>: the error raised, if any, and the file system left behind\<close>
  "os_remove fs p =
     (case remove_fault fs p of
        Some e \<Rightarrow> (Some (Other e), fs)
      | None \<Rightarrow>
          if contents fs p = None then (Some FileNotFoundError, fs)
          else (None, fs\<lparr>contents := (contents fs)(p := None)\<rparr>))"

definition remove_suppressed :: "filesystem \<Rightarrow> string \<Rightarrow> os_error option \<times> filesystem" where
  \<comment> \<open>\<open>with suppress(FileNotFoundError): os.remove(p)\<close>: any other error leaves the block\<close>
  "remove_suppressed fs p =
     (case os_remove fs p of
        (Some FileNotFoundError, fs') \<Rightarrow> (None, fs')
      | (Some e, fs') \<Rightarrow> (Some e, fs')
      | (None, fs') \<Rightarrow> (None, fs'))"

definition write_file :: "filesystem \<Rightarrow> string \<Rightarrow> string \<Rightarrow> os_error option \<times> filesystem" where
  \<comment> \<open>\<open>with open(p, 'w') as f: f.write(text)\<close>: opening creates or truncates the file\<close>
  "write_file fs p text =
     (case open_fault fs p of
        Some e \<Rightarrow> (Some e, fs)
      | None \<Rightarrow>
          (case write_fault fs p of
             Some (e, n) \<Rightarrow> (Some e, fs\<lparr>contents := (contents fs)(p \<mapsto> take n text)\<rparr>)
           | None \<Rightarrow> (None, fs\<lparr>contents := (contents fs)(p \<mapsto> text)\<rparr>)))"

text \<open>
  What \<open>exec(code)\<close> does is not part of the repository: it is a parameter of the model.
  A run of a snippet either completes, having written some text to the redirected
  standard output, or raises; it may also change the file system. A raised exception
  is described by what the handlers of \<open>execute_code\<close> look at: the \<open>except\<close> clause its
  class selects, the name of its class, its \<open>args\<close> (each as the f-string renders it), its
  \<open>lineno\<close> attribute and the frames of its traceback as \<open>traceback.extract_tb\<close> lists
  them. A snippet that never returns has no outcome, and \<open>execute_code\<close> does not return
  either.
\<close>

datatype except_clause =
    Syntax_Error_Clause  \<comment> \<open>an instance of \<open>SyntaxError\<close>: the first clause\<close>
  | Exception_Clause     \<comment> \<open>any other instance of \<open>Exception\<close>: the second clause\<close>
  | No_Clause            \<comment> \<open>an instance of \<open>BaseException\<close> only, as \<open>SystemExit\<close> is\<close>

record frame_summary =
  frame_filename :: string
  frame_lineno :: "int option"
  frame_name :: string
  frame_line :: string

record py_exception =
  exc_clause :: except_clause
  exc_class_name :: string
  exc_args :: "string list"
  exc_lineno :: "int option"
  exc_traceback :: "frame_summary list"

datatype exec_outcome = Completed string | Raised py_exception

type_synonym interpreter = "string \<Rightarrow> filesystem \<Rightarrow> exec_outcome \<times> filesystem"

datatype py_error =
    IndexError                 \<comment> \<open>raised inside a handler of \<open>execute_code\<close>\<close>
  | Uncaught py_exception      \<comment> \<open>raised by the snippet and caught by no handler\<close>
  | OS_Error os_error          \<comment> \<open>raised by a file operation of the pipeline\<close>

definition format_lineno :: "int option \<Rightarrow> string" where
  \<comment> \<open>how the f-string renders a line number, which is an integer or \<open>None\<close>\<close>
  "format_lineno n = (case n of None \<Rightarrow> ''None'' | Some i \<Rightarrow> str_int i)"

definition error_description :: "string \<Rightarrow> int option \<Rightarrow> string \<Rightarrow> string" where
  \<comment> \<open>\<open>f"{error_class} at line {line_number}: {detail}"\<close>\<close>
  "error_description error_class line_number detail =
     error_class @ '' at line '' @ format_lineno line_number @ '': '' @ detail"

definition classify :: "py_exception \<Rightarrow> py_error + string" where
  \<comment> \<open>the two handlers and the description built from what they collect; \<open>err.args[0]\<close>
      and \<open>traceback.extract_tb(tb)[1]\<close> raise \<open>IndexError\<close> when out of range\<close>
  "classify err =
     (case exc_clause err of
        Syntax_Error_Clause \<Rightarrow>
          (case exc_args err of
             [] \<Rightarrow> Inl IndexError
           | detail # _ \<Rightarrow>
               Inr (error_description (exc_class_name err) (exc_lineno err) detail))
      | Exception_Clause \<Rightarrow>
          (case exc_args err of
             [] \<Rightarrow> Inl IndexError
           | detail # _ \<Rightarrow>
               (case exc_traceback err of
                  _ # frame # _ \<Rightarrow>
                    Inr (error_description (exc_class_name err) (frame_lineno frame) detail)
                | _ \<Rightarrow> Inl IndexError))
      | No_Clause \<Rightarrow> Inl (Uncaught err))"

definition error_path :: "string \<Rightarrow> string \<Rightarrow> string" where
  "error_path execution_errors_path ident = path_join execution_errors_path (ident @ ''_error.txt'')"

definition output_path :: "string \<Rightarrow> string \<Rightarrow> string" where
  "output_path execution_outputs_path ident =
     path_join execution_outputs_path (ident @ ''_output.txt'')"

definition remove_old_artifacts ::
  "bool \<Rightarrow> string \<Rightarrow> string \<Rightarrow> string \<Rightarrow> filesystem \<Rightarrow> os_error option \<times> filesystem" where
  \<comment> \<open>the block under \<open>if save_output:\<close> that precedes the execution\<close>
  "remove_old_artifacts save_output ident execution_outputs_path execution_errors_path fs =
     (if save_output then
        (case remove_suppressed fs (error_path execution_errors_path ident) of
           (Some e, fs') \<Rightarrow> (Some e, fs')
         | (None, fs') \<Rightarrow> remove_suppressed fs' (output_path execution_outputs_path ident))
      else (None, fs))"

definition execute_code ::
  "interpreter \<Rightarrow> string \<Rightarrow> bool \<Rightarrow> string \<Rightarrow> string \<Rightarrow> string \<Rightarrow> filesystem
     \<Rightarrow> (py_error + string) \<times> filesystem" where
  \<comment> \<open>an error of a file operation leaves the function as it is raised\<close>
  "execute_code exec code save_output ident execution_outputs_path execution_errors_path fs =
     (case remove_old_artifacts save_output ident
             execution_outputs_path execution_errors_path fs of
        (Some e, fs1) \<Rightarrow> (Inl (OS_Error e), fs1)
      | (None, fs1) \<Rightarrow>
          (let (outcome, fs2) = exec code fs1
           in case outcome of
                Raised err \<Rightarrow>
                  (case classify err of
                     Inl e \<Rightarrow> (Inl e, fs2)
                   | Inr error_desc \<Rightarrow>
                       if save_output then
                         (case write_file fs2 (error_path execution_errors_path ident)
                                 error_desc of
                            (Some e, fs3) \<Rightarrow> (Inl (OS_Error e), fs3)
                          | (None, fs3) \<Rightarrow> (Inr error_desc, fs3))
                       else (Inr error_desc, fs2))
              | Completed output \<Rightarrow>
                  if save_output \<and> output \<noteq> [] then
                    (case write_file fs2 (output_path execution_outputs_path ident) output of
                       (Some e, fs3) \<Rightarrow> (Inl (OS_Error e), fs3)
                     | (None, fs3) \<Rightarrow> (Inr output, fs3))
                  else (Inr output, fs2)))"

section \<open>Batch Driver: \<open>extract_and_save_scripts_from_sheets\<close>\<close>

text \<open>
  The constants of the module \<open>globals\<close> are parameters. A sheet as \<open>pandas\<close> reads it is
  the list of its rows, each with the cells of the three configured columns as
  strings; the workbook is the list of the configured sheets, in the order of
  \<open>SHEETS\<close>. The console receives the first rows of each sheet and the skip notices.
\<close>

record globals =
  DATASETS_PATH :: string
  SCRIPTS_PATH :: string
  OUPUT_IMAGES_PATH :: string
  EXECUTION_OUTPUTS_PATH :: string
  EXECUTION_ERRORS_PATH :: string

record row =
  row_id :: string
  row_code :: string
  row_dataset :: string

datatype console_item = Sheet_Head "row list" | Printed string

record world =
  files :: filesystem
  console :: "console_item list"

definition save_script ::
  "string \<Rightarrow> string \<Rightarrow> string \<Rightarrow> filesystem \<Rightarrow> os_error option \<times> filesystem" where
  "save_script code ident scripts_path fs =
     write_file fs (path_join scripts_path (ident @ ''.py'')) code"

definition row_script :: "globals \<Rightarrow> row \<Rightarrow> string" where
  \<comment> \<open>the script of a row: extraction, path rewriting, display substitution\<close>
  "row_script g r =
     (let code = get_code (row_code r);
          code = update_dataset_local_path code (row_dataset r) (DATASETS_PATH g);
          code = replace_show_with_savefig code (row_id r) (OUPUT_IMAGES_PATH g)
      in code)"

fun process_rows ::
  "globals \<Rightarrow> interpreter \<Rightarrow> nat \<Rightarrow> row list \<Rightarrow> world \<Rightarrow> py_error option \<times> world" where
  \<comment> \<open>the inner \<open>for\<close> loop from row \<open>row_number\<close> on; an error that leaves \<open>save_script\<close> or
      \<open>execute_code\<close> ends the loop and the run\<close>
  "process_rows g exec row_number [] w = (None, w)"
| "process_rows g exec row_number (r # rs) w =
     (if row_code r \<noteq> [] then
        (let code = row_script g r
         in case save_script code (row_id r) (SCRIPTS_PATH g) (files w) of
              (Some e, fs1) \<Rightarrow> (Some (OS_Error e), w\<lparr>files := fs1\<rparr>)
            | (None, fs1) \<Rightarrow>
                (let (result, fs2) = execute_code exec code True (row_id r)
                                       (EXECUTION_OUTPUTS_PATH g) (EXECUTION_ERRORS_PATH g) fs1
                 in case result of
                      Inl e \<Rightarrow> (Some e, w\<lparr>files := fs2\<rparr>)
                    | Inr _ \<Rightarrow> process_rows g exec (row_number + 1) rs (w\<lparr>files := fs2\<rparr>)))
      else
        process_rows g exec (row_number + 1) rs
          (w\<lparr>console := console w @
             [Printed (''Skipping row '' @ str_nat row_number @ '' with no code.'')]\<rparr>))"

fun extract_and_save_scripts_from_sheets ::
  "globals \<Rightarrow> interpreter \<Rightarrow> row list list \<Rightarrow> world \<Rightarrow> py_error option \<times> world" where
  "extract_and_save_scripts_from_sheets g exec [] w = (None, w)"
| "extract_and_save_scripts_from_sheets g exec (sheet # sheets) w =
     (case process_rows g exec 0 sheet (w\<lparr>console := console w @ [Sheet_Head (take 20 sheet)]\<rparr>) of
        (Some e, w') \<Rightarrow> (Some e, w')
      | (None, w') \<Rightarrow> extract_and_save_scripts_from_sheets g exec sheets w')"

section \<open>Sample runs\<close>

text \<open>
  Concrete data for the examples below: a file system with given contents on which
  every operation succeeds, a run with a given outcome that leaves the file system
  alone, the frame of the \<open>exec\<close> call inside \<open>execute_code\<close> and a frame inside the
  snippet, the exceptions of \<open>1/0\<close>, of \<open>raise ValueError\<close> and of \<open>sys.exit(1)\<close>, and a
  configuration.
\<close>

definition sound_fs :: "(string \<rightharpoonup> string) \<Rightarrow> filesystem" where
  "sound_fs m = \<lparr>contents = m, open_fault = Map.empty, write_fault = Map.empty,
                 remove_fault = Map.empty\<rparr>"

definition pure_run :: "exec_outcome \<Rightarrow> interpreter" where
  "pure_run outcome code fs = (outcome, fs)"

definition exec_frame :: frame_summary where
  "exec_frame = \<lparr>frame_filename = ''utils/utils.py'', frame_lineno = Some 153,
                  frame_name = ''execute_code'', frame_line = ''exec(code)''\<rparr>"

definition module_frame :: "int \<Rightarrow> frame_summary" where
  "module_frame n = \<lparr>frame_filename = ''<string>'', frame_lineno = Some n,
                      frame_name = ''<module>'', frame_line = []\<rparr>"

definition zero_division_error :: py_exception where
  "zero_division_error =
     \<lparr>exc_clause = Exception_Clause, exc_class_name = ''ZeroDivisionError'',
      exc_args = [''division by zero''], exc_lineno = None,
      exc_traceback = [exec_frame, module_frame 1]\<rparr>"

definition value_error_no_args :: py_exception where
  "value_error_no_args =
     \<lparr>exc_clause = Exception_Clause, exc_class_name = ''ValueError'',
      exc_args = [], exc_lineno = None,
      exc_traceback = [exec_frame, module_frame 1]\<rparr>"

definition system_exit :: py_exception where
  "system_exit =
     \<lparr>exc_clause = No_Clause, exc_class_name = ''SystemExit'',
      exc_args = [''1''], exc_lineno = None,
      exc_traceback = [exec_frame, module_frame 2]\<rparr>"

definition sample_globals :: globals where
  "sample_globals =
     \<lparr>DATASETS_PATH = ''datasets'', SCRIPTS_PATH = ''scripts'', OUPUT_IMAGES_PATH = ''images'',
      EXECUTION_OUTPUTS_PATH = ''outputs'', EXECUTION_ERRORS_PATH = ''errors''\<rparr>"

section \<open>Properties of the Code Extractor\<close>

lemma join_snoc: "join sep (xs @ [x]) = (if xs = [] then x else join sep xs @ sep @ x)"
  by (induction sep xs rule: join.induct) auto

lemma get_code_loop_skip:
  "\<forall>l \<in> set pre. \<not> sublist fence l \<Longrightarrow>
   get_code_loop (pre @ rest) code False first = get_code_loop rest code False first"
  by (induction pre) auto

lemma get_code_loop_body:
  "\<forall>l \<in> set body. \<not> sublist fence l \<Longrightarrow>
   get_code_loop (body @ rest) (join ''\<newline>'' done) True (done = []) =
   get_code_loop rest (join ''\<newline>'' (done @ body)) True (done @ body = [])"
proof (induction body arbitrary: "done")
  case Nil
  then show ?case by simp
next
  case (Cons l body)
  have "get_code_loop ((l # body) @ rest) (join ''\<newline>'' done) True (done = []) =
        get_code_loop (body @ rest) (join ''\<newline>'' (done @ [l])) True (done @ [l] = [])"
    using Cons.prems by (simp add: join_snoc)
  also have "\<dots> = get_code_loop rest (join ''\<newline>'' ((done @ [l]) @ body)) True ((done @ [l]) @ body = [])"
    using Cons.prems by (intro Cons.IH) simp
  finally show ?case by simp
qed

lemma get_code_loop_open:
  assumes "\<forall>l \<in> set pre. \<not> sublist fence l" "sublist fence opener"
    "\<forall>l \<in> set body. \<not> sublist fence l"
  shows "get_code_loop (pre @ opener # body @ rest) [] False False =
         get_code_loop rest (join ''\<newline>'' body) True (body = [])"
proof -
  have "get_code_loop (pre @ opener # body @ rest) [] False False =
        get_code_loop (body @ rest) (join ''\<newline>'' []) True ([] = ([]::string list))"
    using assms(1,2) by (simp add: get_code_loop_skip)
  also have "\<dots> = get_code_loop rest (join ''\<newline>'' ([] @ body)) True ([] @ body = [])"
    using assms(3) by (rule get_code_loop_body)
  finally show ?thesis by simp
qed

text \<open>
  Claim C5. When the lines of the input are some lines without a fence, an opening line
  with a fence, body lines without a fence, a closing line with a fence and anything
  after it, \<open>get_code\<close> returns exactly the body lines joined by a newline, with no
  trailing newline; nothing of the opening line or of the closing line is returned.
\<close>

theorem get_code_fenced_block:
  assumes "splitlines text = pre @ [opener] @ body @ [closer] @ after"
    and "\<forall>l \<in> set pre. \<not> sublist fence l"
    and "sublist fence opener"
    and "\<forall>l \<in> set body. \<not> sublist fence l"
    and "sublist fence closer"
  shows "get_code text = join ''\<newline>'' body"
  using assms(5) by (simp add: get_code_def assms(1) get_code_loop_open [OF assms(2,3,4)])

theorem get_code_fenced_block_witness:
  "get_code ''Here is some text...\<newline>```python\<newline>import os\<newline>print(os.name)\<newline>``` More text...''
     = ''import os\<newline>print(os.name)''"
proof -
  have "get_code ''Here is some text...\<newline>```python\<newline>import os\<newline>print(os.name)\<newline>``` More text...''
     = join ''\<newline>'' [''import os'', ''print(os.name)'']"
    by (rule get_code_fenced_block [where pre = "[''Here is some text...'']" and opener = "''```python''"
          and closer = "''``` More text...''" and after = "[]"]) code_simp+
  then show ?thesis by simp
qed

text \<open>
  Claim C1, as the code has it. When exactly one line of the input has a fence (the
  block is not terminated), \<open>get_code\<close> returns the lines after that line joined by a
  newline: the empty string only when no non-empty line follows the opening line.
\<close>

theorem get_code_unterminated:
  assumes "splitlines text = pre @ [opener] @ body"
    and "\<forall>l \<in> set pre. \<not> sublist fence l"
    and "sublist fence opener"
    and "\<forall>l \<in> set body. \<not> sublist fence l"
  shows "get_code text = join ''\<newline>'' body"
  using get_code_loop_open [OF assms(2,3,4), of "[]"] by (simp add: get_code_def assms(1))


theorem get_code_unterminated_witness:
  "get_code ''Some text\<newline>```python\<newline>import os\<newline>print(os.name)'' = ''import os\<newline>print(os.name)''"
proof -
  have "get_code ''Some text\<newline>```python\<newline>import os\<newline>print(os.name)''
     = join ''\<newline>'' [''import os'', ''print(os.name)'']"
    by (rule get_code_unterminated [where pre = "[''Some text'']" and opener = "''```python''"]) code_simp+
  then show ?thesis by simp
qed

text \<open>
  The input \<open>```python\<close>, newline, \<open>print(1)\<close> has one fence, on its first line, and
  \<open>get_code\<close> returns \<open>print(1)\<close>, not the empty string.
\<close>

theorem get_code_unterminated_counterexample:
  "splitlines ''```python\<newline>print(1)'' = [''```python'', ''print(1)''] \<and>
   \<not> sublist fence ''print(1)'' \<and>
   get_code ''```python\<newline>print(1)'' = ''print(1)'' \<and>
   get_code ''```python\<newline>print(1)'' \<noteq> []"
  by code_simp

section \<open>Properties of \<open>str.replace\<close> and of the Display Substituter\<close>

lemma py_replace_ne_absent: "\<not> sublist old s \<Longrightarrow> py_replace_ne old new s = s"
  by (induction s) (auto simp: sublist_Cons_right)

lemma py_replace_ne_skip:
  "\<not> prefix old (c # cs) \<Longrightarrow> py_replace_ne old new (c # cs) = c # py_replace_ne old new cs"
  by simp

lemma py_replace_ne_hit:
  "old \<noteq> [] \<Longrightarrow> py_replace_ne old new (old @ s) = new @ py_replace_ne old new s"
  by (cases old) auto

lemma prefix_fresh_head:
  assumes "prefix (t # ts) (a @ t # z)" "t \<notin> set ts"
  shows "a = [] \<or> prefix (t # ts) a"
proof (cases "length (t # ts) \<le> length a")
  case True
  from assms(1) obtain r where r: "a @ t # z = (t # ts) @ r" by (auto simp: prefix_def)
  have "take (length (t # ts)) (a @ t # z) = take (length (t # ts)) a" using True by simp
  moreover have "take (length (t # ts)) ((t # ts) @ r) = t # ts" by simp
  ultimately have "t # ts = take (length (t # ts)) a" using r by metis
  then have "prefix (t # ts) a" by (metis take_is_prefix)
  then show ?thesis ..
next
  case False
  from assms(1) obtain r where r: "a @ t # z = (t # ts) @ r" by (auto simp: prefix_def)
  show ?thesis
  proof (cases a)
    case Nil
    then show ?thesis by simp
  next
    case (Cons c a')
    have "(a @ t # z) ! length a = t" by simp
    moreover have "((t # ts) @ r) ! length a = ts ! length a'"
      using False Cons by (simp add: nth_append)
    ultimately have "ts ! length a' = t" using r by simp
    moreover have "length a' < length ts" using False Cons by simp
    ultimately have "t \<in> set ts" by (metis nth_mem)
    with assms(2) show ?thesis by simp
  qed
qed

lemma py_replace_ne_first:
  assumes "t \<notin> set ts" "\<not> sublist (t # ts) a"
  shows "py_replace_ne (t # ts) new (a @ (t # ts) @ b) = a @ new @ py_replace_ne (t # ts) new b"
  using assms(2)
proof (induction a)
  case Nil
  show ?case using py_replace_ne_hit [of "t # ts" new b] by simp
next
  case (Cons c a)
  have "\<not> prefix (t # ts) (c # a @ (t # ts) @ b)"
  proof
    have eq: "c # a @ (t # ts) @ b = (c # a) @ t # (ts @ b)" by simp
    assume "prefix (t # ts) (c # a @ (t # ts) @ b)"
    then have "prefix (t # ts) ((c # a) @ t # (ts @ b))" unfolding eq .
    from prefix_fresh_head [OF this assms(1)] have "prefix (t # ts) (c # a)" by simp
    with Cons.prems show False by auto
  qed
  then have "py_replace_ne (t # ts) new (c # a @ (t # ts) @ b) =
             c # py_replace_ne (t # ts) new (a @ (t # ts) @ b)"
    by (rule py_replace_ne_skip)
  moreover have "\<not> sublist (t # ts) a" using Cons.prems by (auto simp: sublist_Cons_right)
  ultimately show ?case using Cons.IH by simp
qed

lemma py_replace_ne_join:
  assumes "t \<notin> set ts" "segs \<noteq> []" "\<forall>s \<in> set segs. \<not> sublist (t # ts) s"
  shows "py_replace_ne (t # ts) new (join (t # ts) segs) = join new segs"
  using assms(2,3)
proof (induction "t # ts" segs rule: join.induct)
  case 1
  then show ?case by simp
next
  case (2 x)
  then show ?case by (simp add: py_replace_ne_absent)
next
  case (3 x y ys)
  have "py_replace_ne (t # ts) new (x @ (t # ts) @ join (t # ts) (y # ys)) =
        x @ new @ py_replace_ne (t # ts) new (join (t # ts) (y # ys))"
    using 3 by (intro py_replace_ne_first assms(1)) simp
  then show ?case using 3 by simp
qed

lemma first_occurrence:
  "sublist tok s \<Longrightarrow> \<exists>a b. s = a @ tok @ b \<and> (tok \<noteq> [] \<longrightarrow> \<not> sublist tok a)"
proof (induction s)
  case Nil
  then show ?case by simp
next
  case (Cons c s)
  show ?case
  proof (cases "prefix tok (c # s)")
    case True
    then obtain b where "c # s = [] @ tok @ b" by (auto simp: prefix_def)
    then show ?thesis by (metis sublist_Nil_right)
  next
    case False
    with Cons.prems have "sublist tok s" by (simp add: sublist_Cons_right)
    from Cons.IH [OF this] obtain a b where ab: "s = a @ tok @ b" "tok \<noteq> [] \<longrightarrow> \<not> sublist tok a" by blast
    have "tok \<noteq> [] \<longrightarrow> \<not> sublist tok (c # a)"
    proof (intro impI notI)
      assume ne: "tok \<noteq> []" and "sublist tok (c # a)"
      then have "prefix tok (c # a)" using ab(2) by (simp add: sublist_Cons_right)
      then have "prefix tok ((c # a) @ tok @ b)" by (rule prefix_prefix)
      then have "prefix tok (c # s)" using ab(1) by simp
      with False show False ..
    qed
    moreover have "c # s = (c # a) @ tok @ b" using ab(1) by simp
    ultimately show ?thesis by blast
  qed
qed

lemma split_at_token:
  assumes "tok \<noteq> []"
  shows "\<exists>segs. segs \<noteq> [] \<and> (\<forall>s \<in> set segs. \<not> sublist tok s) \<and> code = join tok segs"
proof (induction "length code" arbitrary: code rule: less_induct)
  case less
  show ?case
  proof (cases "sublist tok code")
    case False
    then have "[code] \<noteq> [] \<and> (\<forall>s \<in> set [code]. \<not> sublist tok s) \<and> code = join tok [code]" by simp
    then show ?thesis by blast
  next
    case True
    from first_occurrence [OF this] assms obtain a b where ab: "code = a @ tok @ b" "\<not> sublist tok a" by blast
    have "length b < length code" using ab(1) assms by simp
    from less [OF this] obtain segs where segs: "segs \<noteq> []" "\<forall>s \<in> set segs. \<not> sublist tok s" "b = join tok segs" by blast
    from segs(1) obtain y ys where "segs = y # ys" by (cases segs) auto
    then have "code = join tok (a # segs)" using ab(1) segs(3) by simp
    moreover have "\<forall>s \<in> set (a # segs). \<not> sublist tok s" using ab(2) segs(2) by simp
    ultimately show ?thesis by blast
  qed
qed


lemma sublist_fresh_head:
  assumes "t \<notin> set ts" "\<not> sublist (t # ts) x" "sublist (t # ts) (x @ t # z)"
  shows "sublist (t # ts) (t # z)"
  using assms(2,3)
proof (induction x)
  case Nil
  then show ?case by simp
next
  case (Cons c x)
  have no: "\<not> sublist (t # ts) x" using Cons.prems(1) by (auto simp: sublist_Cons_right)
  have "\<not> prefix (t # ts) ((c # x) @ t # z)"
    using prefix_fresh_head [OF _ assms(1), of "c # x" z] Cons.prems(1) by auto
  then have "sublist (t # ts) (x @ t # z)"
    using Cons.prems(2) sublist_Cons_right [of "t # ts" c "x @ t # z"] by auto
  with no show ?case by (rule Cons.IH)
qed

lemma sublist_barrier:
  assumes "q \<notin> set tok" "sublist tok (p @ q # w)"
  shows "sublist tok p \<or> sublist tok w"
  using assms(2)
proof (induction p)
  case Nil
  then show ?case using assms(1) by (cases tok) (auto simp: sublist_Cons_right)
next
  case (Cons c p)
  from Cons.prems have "prefix tok ((c # p) @ q # w) \<or> sublist tok (p @ q # w)"
    using sublist_Cons_right [of tok c "p @ q # w"] by simp
  then show ?case
  proof
    assume "prefix tok ((c # p) @ q # w)"
    then have "prefix tok (c # p) \<or> (\<exists>us. tok = (c # p) @ us \<and> prefix us (q # w))"
      by (simp only: prefix_append)
    then have "prefix tok (c # p)"
    proof
      assume "\<exists>us. tok = (c # p) @ us \<and> prefix us (q # w)"
      then obtain us where us: "tok = (c # p) @ us" "prefix us (q # w)" by blast
      have "us = []" using us assms(1) by (cases us) auto
      with us(1) show ?thesis by simp
    qed
    then show ?thesis by auto
  next
    assume "sublist tok (p @ q # w)"
    from Cons.IH [OF this] show ?thesis by (auto simp: sublist_Cons_right)
  qed
qed

lemma show_not_in_savefig_call:
  assumes "sublist ''.show()'' (''.savefig('' @ [CHR 0x22] @ p @ [CHR 0x22] @ '')'' @ y)"
  shows "sublist ''.show()'' p \<or> sublist ''.show()'' y"
proof -
  have "sublist ''.show()'' (p @ CHR 0x22 # ('')'' @ y))"
    using assms by (simp add: sublist_Cons_right)
  then have "sublist ''.show()'' p \<or> sublist ''.show()'' ('')'' @ y)"
    by (rule sublist_barrier [rotated]) simp
  then show ?thesis by (simp add: sublist_Cons_right)
qed

lemma no_show_after_join:
  assumes "\<not> sublist ''.show()'' p" "\<forall>s \<in> set segs. \<not> sublist ''.show()'' s"
  shows "\<not> sublist ''.show()'' (join (''.savefig('' @ [CHR 0x22] @ p @ [CHR 0x22] @ '')'') segs)"
  using assms(2)
proof (induction "''.savefig('' @ [CHR 0x22] @ p @ [CHR 0x22] @ '')''" segs rule: join.induct)
  case 1
  then show ?case by simp
next
  case (2 x)
  then show ?case by simp
next
  case (3 x y ys)
  let ?rest = "join (''.savefig('' @ [CHR 0x22] @ p @ [CHR 0x22] @ '')'') (y # ys)"
  have rest: "\<not> sublist ''.show()'' ?rest" using 3 by simp
  have x: "\<not> sublist ''.show()'' x" using 3 by simp
  show ?case
  proof
    assume "sublist ''.show()'' (join (''.savefig('' @ [CHR 0x22] @ p @ [CHR 0x22] @ '')'') (x # y # ys))"
    then have "sublist (CHR ''.'' # ''show()'') (x @ CHR ''.'' # (''savefig('' @ [CHR 0x22] @ p @ [CHR 0x22] @ '')'' @ ?rest))"
      by simp
    then have "sublist (CHR ''.'' # ''show()'') (CHR ''.'' # (''savefig('' @ [CHR 0x22] @ p @ [CHR 0x22] @ '')'' @ ?rest))"
      using x by (intro sublist_fresh_head [where x = x]) simp_all
    then have "sublist ''.show()'' (''.savefig('' @ [CHR 0x22] @ p @ [CHR 0x22] @ '')'' @ ?rest)"
      by simp
    from show_not_in_savefig_call [OF this] assms(1) rest show False by blast
  qed
qed

text \<open>
  Claim C8, as the code has it. Every code string is a sequence of pieces free of
  \<open>.show()\<close> joined by \<open>.show()\<close>, and \<open>replace_show_with_savefig\<close> returns the same pieces
  joined by the \<open>.savefig\<close> call on the image path \<open>os.path.join\<close> builds from the images
  directory and the identifier: every occurrence is replaced and nothing else changes.
  The result has no occurrence of \<open>.show()\<close> provided the image path has none, and code
  without the token is returned unchanged.
\<close>

theorem replace_show_with_savefig_every_occurrence:
  "(\<exists>segs. segs \<noteq> [] \<and> (\<forall>s \<in> set segs. \<not> sublist ''.show()'' s) \<and>
      code = join ''.show()'' segs \<and>
      replace_show_with_savefig code ident output_images_path =
        join (''.savefig('' @ [CHR 0x22] @ path_join output_images_path (ident @ ''.png'')
                @ [CHR 0x22] @ '')'') segs) \<and>
   (\<not> sublist ''.show()'' (path_join output_images_path (ident @ ''.png'')) \<longrightarrow>
      \<not> sublist ''.show()'' (replace_show_with_savefig code ident output_images_path)) \<and>
   (\<not> sublist ''.show()'' code \<longrightarrow>
      replace_show_with_savefig code ident output_images_path = code)"
proof -
  let ?call = "''.savefig('' @ [CHR 0x22] @ path_join output_images_path (ident @ ''.png'')
                 @ [CHR 0x22] @ '')''"
  obtain segs where segs: "segs \<noteq> []" "\<forall>s \<in> set segs. \<not> sublist ''.show()'' s"
      "code = join ''.show()'' segs"
    using split_at_token [of "''.show()''" code] by auto
  have "py_replace_ne (CHR ''.'' # ''show()'') ?call (join (CHR ''.'' # ''show()'') segs) = join ?call segs"
    using segs(1,2) by (intro py_replace_ne_join) simp_all
  then have repl: "py_replace code ''.show()'' ?call = join ?call segs"
    using segs(3) by (simp add: py_replace_def)
  have absent: "join ?call segs = code" if "\<not> sublist ''.show()'' code"
    using repl that by (simp add: py_replace_def py_replace_ne_absent)
  have result: "replace_show_with_savefig code ident output_images_path = join ?call segs"
    using repl absent by (cases "sublist ''.show()'' code") (simp_all add: replace_show_with_savefig_def)
  have "\<not> sublist ''.show()'' (join ?call segs)"
    if "\<not> sublist ''.show()'' (path_join output_images_path (ident @ ''.png''))"
    using that segs(2) by (rule no_show_after_join)
  with result segs show ?thesis
    by (auto simp: replace_show_with_savefig_def)
qed

theorem replace_show_with_savefig_every_occurrence_witness:
  "\<not> sublist ''.show()'' (path_join ''images'' (''r1'' @ ''.png'')) \<and>
   \<not> sublist ''.show()'' (replace_show_with_savefig ''plt.plot(x)\<newline>plt.show()\<newline>fig.show()'' ''r1'' ''images'') \<and>
   \<not> sublist ''.show()'' ''x = 1'' \<and> replace_show_with_savefig ''x = 1'' ''r1'' ''images'' = ''x = 1''"
proof -
  have a: "\<not> sublist ''.show()'' (path_join ''images'' (''r1'' @ ''.png''))" by code_simp
  have b: "\<not> sublist ''.show()'' ''x = 1''" by code_simp
  show ?thesis
    using a b
      replace_show_with_savefig_every_occurrence [of "''plt.plot(x)\<newline>plt.show()\<newline>fig.show()''" "''r1''" "''images''"]
      replace_show_with_savefig_every_occurrence [of "''x = 1''" "''r1''" "''images''"]
    by blast
qed

text \<open>
  With the identifier \<open>a.show()\<close> the image path itself has the token, and so has the
  result.
\<close>

theorem replace_show_with_savefig_counterexample:
  "sublist ''.show()'' ''plt.show()'' \<and>
   sublist ''.show()'' (replace_show_with_savefig ''plt.show()'' ''a.show()'' ''images'')"
  by code_simp

section \<open>Properties of the Path Rewriter\<close>

lemma py_find_char: "q \<notin> set a \<Longrightarrow> py_find [q] (a @ q # b) = int (length a)"
  by (induction a) auto

lemma py_rfind_absent: "q \<notin> set b \<Longrightarrow> py_rfind [q] b = - 1"
  by (induction b) auto

lemma py_rfind_char: "q \<notin> set b \<Longrightarrow> py_rfind [q] (a @ q # b) = int (length a)"
  by (induction a) (auto simp: py_rfind_absent Let_def)

lemma wrong_path_quoted:
  assumes "quote_symbol l = [q]" "l = a @ [q] @ w @ [q] @ b" "q \<notin> set a" "q \<notin> set b"
  shows "wrong_path l = w"
proof -
  have s: "py_find [q] l = int (length a)"
    using assms(2,3) py_find_char [of q a "w @ [q] @ b"] by simp
  have "l = (a @ [q] @ w) @ q # b" using assms(2) by simp
  then have e: "py_rfind [q] l = int (length (a @ [q] @ w))"
    using assms(4) py_rfind_char [of q b "a @ [q] @ w"] by simp
  have n1: "nat (int (length a) + 1) = Suc (length a)" by simp
  have n2: "nat (1 + (int (length a) + int (length w))) = Suc (length a + length w)" by simp
  show ?thesis
    unfolding wrong_path_def assms(1) s e Let_def
    by (simp add: py_slice_def slice_index_def assms(2) n1 n2)
qed

lemma wrong_path_single:
  assumes "quote_symbol l = [q]" "l = a @ [q] @ b" "q \<notin> set a" "q \<notin> set b"
  shows "wrong_path l = []"
proof -
  have s: "py_find [q] l = int (length a)"
    using assms(2,3) py_find_char [of q a b] by simp
  have e: "py_rfind [q] l = int (length a)"
    using assms(2,4) py_rfind_char [of q b a] by simp
  show ?thesis
    unfolding wrong_path_def assms(1) s e Let_def
    by (simp add: py_slice_def slice_index_def assms(2))
qed

lemma update_loop_skip:
  "\<forall>l \<in> set pre. \<not> sublist ''.csv'' l \<or> wrong_path l = [] \<Longrightarrow>
   update_loop path (pre @ rest) code = update_loop path rest code"
  by (induction pre) auto




text \<open>
  On a line with \<open>.csv\<close> and no quote character at all both searches return \<open>-1\<close>, the
  slice is the line without its last character, and that is replaced by the path.
\<close>

lemma update_dataset_local_path_unquoted_line:
  "update_dataset_local_path ''df = pd.read_csv(data.csv)'' ''sales.csv'' ''datasets'' = ''datasets/sales.csv)''"
  by code_simp

lemma py_replace_ne_barrier:
  assumes "old \<noteq> []" "q \<notin> set old"
  shows "py_replace_ne old new (a @ q # b) = py_replace_ne old new a @ q # py_replace_ne old new b"
  using assms
proof (induction old new a rule: py_replace_ne.induct)
  case (1 old new)
  then have "\<not> prefix old (q # b)" by (cases old) auto
  then show ?case by simp
next
  case (2 old new c cs)
  note assms = 2(3,4)
  show ?case
  proof (cases "prefix old (c # cs)")
    case True
    then have p: "prefix old (c # cs @ q # b)" using prefix_prefix [of old "c # cs" "q # b"] by simp
    have "length old \<le> Suc (length cs)" using True prefix_length_le by fastforce
    then have d: "drop (length old - 1) (cs @ q # b) = drop (length old - 1) cs @ q # b" by simp
    show ?thesis using True p d 2(1) assms by simp
  next
    case False
    have "\<not> prefix old (c # cs @ q # b)"
    proof
      assume "prefix old (c # cs @ q # b)"
      then have "prefix old ((c # cs) @ q # b)" by simp
      then have "prefix old (c # cs) \<or> (\<exists>us. old = (c # cs) @ us \<and> prefix us (q # b))"
        by (simp only: prefix_append)
      with False obtain us where us: "old = (c # cs) @ us" "prefix us (q # b)" by blast
      have "us = []" using us assms(2) by (cases us) auto
      with us(1) False show False by simp
    qed
    with False 2(2) assms show ?thesis by simp
  qed
qed

lemma splitlines_from_no_linebreak:
  "\<forall>c \<in> set cur. \<not> is_linebreak c \<Longrightarrow>
   \<forall>l \<in> set (splitlines_from cur s). \<forall>c \<in> set l. \<not> is_linebreak c"
proof (induction cur s rule: splitlines_from.induct)
  case (1 cur)
  then show ?case by simp
next
  case (2 cur c)
  then show ?case by simp
next
  case (3 cur c d cs)
  have nil: "\<forall>c \<in> set ([]::string). \<not> is_linebreak c" by simp
  show ?case
  proof (cases "c = CHR 0x0D \<and> d = CHR 0x0A")
    case True
    then show ?thesis using 3(1) [OF True nil] 3(4) by simp
  next
    case False
    show ?thesis
    proof (cases "is_linebreak c")
      case True
      then show ?thesis using False 3(2) [OF False True nil] 3(4) by auto
    next
      case nb: False
      then have "\<forall>x \<in> set (cur @ [c]). \<not> is_linebreak x" using 3(4) by simp
      from 3(3) [OF False nb this] show ?thesis using False nb by auto
    qed
  qed
qed

lemma splitlines_no_linebreak:
  "l \<in> set (splitlines s) \<Longrightarrow> c \<in> set l \<Longrightarrow> \<not> is_linebreak c"
  using splitlines_from_no_linebreak [of "[]" s] by (simp add: splitlines_def)

lemma update_dataset_local_path_first_line:
  assumes "splitlines code = pre @ [target] @ post"
    and "\<forall>l \<in> set pre. \<not> sublist ''.csv'' l \<or> wrong_path l = []"
    and "sublist ''.csv'' target" and "wrong_path target \<noteq> []"
  shows "update_dataset_local_path code filename datasets_path =
           py_replace_ne target (py_replace target (wrong_path target) (path_join datasets_path filename)) code"
proof -
  have ne: "target \<noteq> []" using assms(3) by auto
  have "update_dataset_local_path code filename datasets_path =
        update_loop (path_join datasets_path filename) (pre @ target # post) code"
    by (simp add: update_dataset_local_path_def assms(1))
  also have "\<dots> = update_loop (path_join datasets_path filename) (target # post) code"
    using assms(2) by (rule update_loop_skip)
  also have "\<dots> = py_replace code target (py_replace target (wrong_path target) (path_join datasets_path filename))"
    using assms(3,4) by simp
  finally show ?thesis using ne by (simp add: py_replace_def)
qed

text \<open>
  Claim C4, as the code has it. When the first line with \<open>.csv\<close> has a non-empty
  substring \<open>old_path\<close> between the first and the last occurrence of its quote character,
  \<open>update_dataset_local_path\<close> replaces every occurrence of the whole text of that line
  in the code by the line in which every occurrence of \<open>old_path\<close> is replaced by the
  local path. The old path alone is not searched for in the code: where the line's text
  occurs once, at the start of a line, the text before and after it is returned as it
  is, whatever it contains.
\<close>

theorem update_dataset_local_path_rewrites_line:
  assumes "splitlines code = pre @ [target] @ post"
    and "\<forall>l \<in> set pre. \<not> sublist ''.csv'' l"
    and "sublist ''.csv'' target"
    and "quote_symbol target = [q]" and "target = a @ [q] @ old_path @ [q] @ b"
    and "q \<notin> set a" and "q \<notin> set b" and "old_path \<noteq> []"
  shows "update_dataset_local_path code filename datasets_path =
           py_replace code target
             (py_replace target old_path (path_join datasets_path filename)) \<and>
         (\<forall>before after.
            code = before @ target @ after \<and> (before = [] \<or> is_linebreak (last before)) \<and>
            \<not> sublist target before \<and> \<not> sublist target after \<longrightarrow>
            update_dataset_local_path code filename datasets_path =
              before @ py_replace target old_path (path_join datasets_path filename) @ after)"
proof (intro conjI allI impI)
  let ?new = "py_replace target old_path (path_join datasets_path filename)"
  have ne: "target \<noteq> []" using assms(3) by auto
  have w: "wrong_path target = old_path" using assms(4,5,6,7) by (rule wrong_path_quoted)
  have pre: "\<forall>l \<in> set pre. \<not> sublist ''.csv'' l \<or> wrong_path l = []" using assms(2) by simp
  have wne: "wrong_path target \<noteq> []" using w assms(8) by simp
  have upd: "update_dataset_local_path code filename datasets_path = py_replace_ne target ?new code"
    using update_dataset_local_path_first_line [OF assms(1) pre assms(3) wne, of filename datasets_path]
    unfolding w .
  then show "update_dataset_local_path code filename datasets_path = py_replace code target ?new"
    using ne by (simp add: py_replace_def)
  fix before after
  assume h: "code = before @ target @ after \<and> (before = [] \<or> is_linebreak (last before)) \<and>
            \<not> sublist target before \<and> \<not> sublist target after"
  have "target \<in> set (splitlines code)" using assms(1) by simp
  then have free: "\<And>c. c \<in> set target \<Longrightarrow> \<not> is_linebreak c" by (rule splitlines_no_linebreak)
  have tail: "py_replace_ne target ?new (target @ after) = ?new @ after"
    using ne h by (simp add: py_replace_ne_hit py_replace_ne_absent)
  from h have "before = [] \<or> is_linebreak (last before)" by simp
  then have "py_replace_ne target ?new (before @ target @ after) = before @ ?new @ after"
  proof
    assume "before = []"
    with tail show ?thesis by simp
  next
    assume lb: "is_linebreak (last before)"
    show ?thesis
    proof (cases before rule: rev_cases)
      case Nil
      with tail show ?thesis by simp
    next
      case (snoc x c)
      with lb free have c: "c \<notin> set target" by auto
      have "\<not> sublist target x" using h snoc by (auto simp: sublist_append)
      then have "py_replace_ne target ?new x = x" by (rule py_replace_ne_absent)
      moreover have "py_replace_ne target ?new (x @ c # (target @ after)) =
                     py_replace_ne target ?new x @ c # py_replace_ne target ?new (target @ after)"
        using ne c by (rule py_replace_ne_barrier)
      ultimately show ?thesis using snoc tail by simp
    qed
  qed
  with upd h show "update_dataset_local_path code filename datasets_path = before @ ?new @ after"
    by simp
qed

theorem update_dataset_local_path_rewrites_line_witness:
  "update_dataset_local_path
     (''df = pd.read_csv('' @ [CHR 0x27] @ ''data.csv'' @ [CHR 0x27] @ '')\<newline># data.csv holds the sales'')
     ''sales.csv'' ''datasets''
   = ''df = pd.read_csv('' @ [CHR 0x27] @ ''datasets/sales.csv'' @ [CHR 0x27] @ '')\<newline># data.csv holds the sales''"
proof -
  let ?t = "''df = pd.read_csv('' @ [CHR 0x27] @ ''data.csv'' @ [CHR 0x27] @ '')''"
  let ?c = "''df = pd.read_csv('' @ [CHR 0x27] @ ''data.csv'' @ [CHR 0x27] @ '')\<newline># data.csv holds the sales''"
  have h1: "splitlines ?c = [] @ [?t] @ [''# data.csv holds the sales'']" by code_simp
  have h2: "\<forall>l \<in> set []. \<not> sublist ''.csv'' l" by simp
  have h3: "sublist ''.csv'' ?t" by code_simp
  have h4: "quote_symbol ?t = [CHR 0x27]" by code_simp
  have h5: "?t = ''df = pd.read_csv('' @ [CHR 0x27] @ ''data.csv'' @ [CHR 0x27] @ '')''" by simp
  have h6: "CHR 0x27 \<notin> set ''df = pd.read_csv(''" and h7: "CHR 0x27 \<notin> set '')''"
    and h8: "''data.csv'' \<noteq> []" by simp_all
  have shape: "?c = [] @ ?t @ ''\<newline># data.csv holds the sales'' \<and>
      ([] = ([]::string) \<or> is_linebreak (last [])) \<and> \<not> sublist ?t [] \<and>
      \<not> sublist ?t ''\<newline># data.csv holds the sales''"
    by code_simp
  have new: "py_replace ?t ''data.csv'' (path_join ''datasets'' ''sales.csv'')
             = ''df = pd.read_csv('' @ [CHR 0x27] @ ''datasets/sales.csv'' @ [CHR 0x27] @ '')''"
    by code_simp
  from update_dataset_local_path_rewrites_line [OF h1 h2 h3 h4 h5 h6 h7 h8, of "''sales.csv''" "''datasets''"]
    shape
  have "update_dataset_local_path ?c ''sales.csv'' ''datasets'' =
          [] @ py_replace ?t ''data.csv'' (path_join ''datasets'' ''sales.csv'')
             @ ''\<newline># data.csv holds the sales''"
    by blast
  then show ?thesis unfolding new by simp
qed

text \<open>
  The old path \<open>data.csv\<close> also occurs in the comment on the second line. The code
  leaves the comment as it is; a replacement of the substring in the whole code would
  change it.
\<close>

theorem update_dataset_local_path_rewrites_line_counterexample:
  "wrong_path (''df = pd.read_csv('' @ [CHR 0x27] @ ''data.csv'' @ [CHR 0x27] @ '')'') = ''data.csv'' \<and>
   update_dataset_local_path
     (''df = pd.read_csv('' @ [CHR 0x27] @ ''data.csv'' @ [CHR 0x27] @ '')\<newline># data.csv holds the sales'')
     ''sales.csv'' ''datasets''
   = ''df = pd.read_csv('' @ [CHR 0x27] @ ''datasets/sales.csv'' @ [CHR 0x27] @ '')\<newline># data.csv holds the sales'' \<and>
   py_replace
     (''df = pd.read_csv('' @ [CHR 0x27] @ ''data.csv'' @ [CHR 0x27] @ '')\<newline># data.csv holds the sales'')
     ''data.csv'' (path_join ''datasets'' ''sales.csv'')
   = ''df = pd.read_csv('' @ [CHR 0x27] @ ''datasets/sales.csv'' @ [CHR 0x27] @ '')\<newline># datasets/sales.csv holds the sales''"
  by code_simp

lemma py_replace_ne_same_aux: "new = old \<Longrightarrow> old \<noteq> [] \<Longrightarrow> py_replace_ne old new s = s"
proof (induction old new s rule: py_replace_ne.induct)
  case (1 old new)
  then show ?case by simp
next
  case (2 old new c cs)
  show ?case
  proof (cases "prefix old (c # cs)")
    case True
    then obtain r where r: "c # cs = old @ r" by (auto simp: prefix_def)
    have "drop (length old - 1) cs = drop (length old) (c # cs)" using 2(4) by (cases old) auto
    also have "\<dots> = r" using r by simp
    finally have d: "drop (length old - 1) cs = r" .
    from 2(1) [OF True 2(3,4)] d have ih: "py_replace_ne old old r = r" using 2(3) by simp
    have "py_replace_ne old new (c # cs) = py_replace_ne old old (old @ r)"
      using r 2(3) by (simp del: py_replace_ne.simps)
    also have "\<dots> = old @ py_replace_ne old old r" using 2(4) by (rule py_replace_ne_hit)
    finally show ?thesis using ih r by simp
  next
    case False
    with 2(2) [OF False 2(3,4)] show ?thesis by simp
  qed
qed

lemma py_replace_ne_same: "old \<noteq> [] \<Longrightarrow> py_replace_ne old old s = s"
  by (rule py_replace_ne_same_aux) simp_all

lemma splitlines_from_append_free:
  "\<forall>c \<in> set u. \<not> is_linebreak c \<Longrightarrow> splitlines_from cur (u @ s) = splitlines_from (cur @ u) s"
proof (induction u arbitrary: cur)
  case Nil
  then show ?case by simp
next
  case (Cons c u)
  have c: "\<not> is_linebreak c" and u: "\<forall>c \<in> set u. \<not> is_linebreak c" using Cons.prems by simp_all
  have cr: "c \<noteq> CHR 0x0D" using c by (auto simp: is_linebreak_def)
  show ?case
  proof (cases "u @ s")
    case Nil
    then show ?thesis using c by simp
  next
    case (Cons d r)
    have "splitlines_from cur (c # d # r) = splitlines_from (cur @ [c]) (d # r)"
      using c cr by simp
    also have "\<dots> = splitlines_from ((cur @ [c]) @ u) s"
      using Cons.IH [OF u, of "cur @ [c]"] Cons by simp
    finally show ?thesis using Cons by simp
  qed
qed

lemma splitlines_from_crlf:
  "splitlines_from cur (CHR 0x0D # CHR 0x0A # s) = cur # splitlines_from [] s"
  by simp

lemma splitlines_from_break:
  assumes "is_linebreak b" "\<not> (b = CHR 0x0D \<and> prefix [CHR 0x0A] s)"
  shows "splitlines_from cur (b # s) = cur # splitlines_from [] s"
  using assms by (cases s) auto

lemma set_py_replace_ne: "set (py_replace_ne old new s) \<subseteq> set s \<union> set new"
proof (induction old new s rule: py_replace_ne.induct)
  case (1 old new)
  then show ?case by simp
next
  case (2 old new c cs)
  show ?case
  proof (cases "prefix old (c # cs)")
    case True
    have "set (drop (length old - 1) cs) \<subseteq> set cs" by (rule set_drop_subset)
    with 2(1) [OF True] True show ?thesis by auto
  next
    case False
    with 2(2) [OF False] show ?thesis by auto
  qed
qed

lemma py_replace_ne_nonempty: "new \<noteq> [] \<Longrightarrow> s \<noteq> [] \<Longrightarrow> py_replace_ne old new s \<noteq> []"
  by (cases s) auto

lemma py_replace_ne_no_lf_head:
  assumes "new \<noteq> []" "q \<notin> set new" "\<not> prefix [q] s"
  shows "\<not> prefix [q] (py_replace_ne old new s)"
proof (cases s)
  case Nil
  then show ?thesis by simp
next
  case (Cons c cs)
  show ?thesis
  proof (cases "prefix old (c # cs)")
    case True
    from assms(1,2) have "\<not> prefix [q] (new @ py_replace_ne old new (drop (length old - 1) cs))"
      by (cases new) auto
    with True Cons show ?thesis by simp
  next
    case False
    with Cons assms(3) show ?thesis by simp
  qed
qed


lemma splitlines_py_replace_ne:
  assumes old: "old \<noteq> []" "\<forall>c \<in> set old. \<not> is_linebreak c"
    and new: "new \<noteq> []" "\<forall>c \<in> set new. \<not> is_linebreak c"
  shows "splitlines (py_replace_ne old new s) = map (py_replace_ne old new) (splitlines s)"
proof (induction "length s" arbitrary: s rule: less_induct)
  case less
  let ?R = "py_replace_ne old new"
  define u where "u = takeWhile (\<lambda>c. \<not> is_linebreak c) s"
  define rest where "rest = dropWhile (\<lambda>c. \<not> is_linebreak c) s"
  have s: "s = u @ rest" by (simp add: u_def rest_def)
  have u: "\<forall>c \<in> set u. \<not> is_linebreak c" by (auto simp: u_def dest: set_takeWhileD)
  have Ru: "\<forall>c \<in> set (?R u). \<not> is_linebreak c"
    using set_py_replace_ne [of old new u] u new(2) by auto
  show ?case
  proof (cases rest)
    case Nil
    then have su: "s = u" using s by simp
    have "splitlines (?R u) = (if ?R u = [] then [] else [?R u])"
      using splitlines_from_append_free [OF Ru, of "[]" "[]"] by (simp add: splitlines_def)
    moreover have "splitlines u = (if u = [] then [] else [u])"
      using splitlines_from_append_free [OF u, of "[]" "[]"] by (simp add: splitlines_def)
    moreover have "?R u = [] \<longleftrightarrow> u = []"
      using py_replace_ne_nonempty [OF new(1), of u old] by auto
    ultimately have "splitlines (?R u) = map ?R (splitlines u)" by simp
    then show ?thesis unfolding su .
  next
    case (Cons b s')
    have "rest \<noteq> []" using Cons by simp
    then have "is_linebreak (hd rest)"
      unfolding rest_def using hd_dropWhile [of "\<lambda>c. \<not> is_linebreak c" s] by blast
    then have b: "is_linebreak b" using Cons by simp
    have bo: "b \<notin> set old" using b old(2) by auto
    have sb: "s = u @ b # s'" using s Cons by simp
    have Rs: "?R s = ?R u @ b # ?R s'"
      unfolding sb using old(1) bo by (rule py_replace_ne_barrier)
    have lines: "splitlines s = splitlines_from u (b # s')"
      unfolding sb using splitlines_from_append_free [OF u, of "[]" "b # s'"] by (simp add: splitlines_def)
    have Rlines: "splitlines (?R s) = splitlines_from (?R u) (b # ?R s')"
      unfolding Rs using splitlines_from_append_free [OF Ru, of "[]" "b # ?R s'"]
      by (simp add: splitlines_def)
    have len: "length s' < length s" unfolding sb by simp
    show ?thesis
    proof (cases "b = CHR 0x0D \<and> prefix [CHR 0x0A] s'")
      case True
      then obtain s'' where s'': "s' = CHR 0x0A # s''" by (auto simp: prefix_def)
      have lf: "CHR 0x0A \<notin> set old" using old(2) by (auto simp: is_linebreak_def)
      have "?R ([] @ CHR 0x0A # s'') = ?R [] @ CHR 0x0A # ?R s''"
        using old(1) lf by (rule py_replace_ne_barrier)
      then have Rs': "?R s' = CHR 0x0A # ?R s''" unfolding s'' by simp
      have "splitlines (?R s) = ?R u # splitlines (?R s'')"
        unfolding Rlines Rs' using True by (simp add: splitlines_def)
      moreover have "splitlines s = u # splitlines s''"
        unfolding lines s'' using True by (simp add: splitlines_def)
      moreover have "length s'' < length s" using len s'' by simp
      ultimately show ?thesis using less [of s''] by simp
    next
      case False
      have nolf: "CHR 0x0A \<notin> set new" using new(2) by (auto simp: is_linebreak_def)
      have "\<not> (b = CHR 0x0D \<and> prefix [CHR 0x0A] (?R s'))"
        using False py_replace_ne_no_lf_head [OF new(1) nolf, of s' old] by blast
      with b have "splitlines_from (?R u) (b # ?R s') = ?R u # splitlines_from [] (?R s')"
        by (rule splitlines_from_break)
      then have "splitlines (?R s) = ?R u # splitlines (?R s')"
        unfolding Rlines by (simp add: splitlines_def)
      moreover from b False have "splitlines_from u (b # s') = u # splitlines_from [] s'"
        by (rule splitlines_from_break)
      then have "splitlines s = u # splitlines s'"
        unfolding lines by (simp add: splitlines_def)
      ultimately show ?thesis using less [OF len] by simp
    qed
  qed
qed


lemma sublist_single: "sublist [c] l \<longleftrightarrow> c \<in> set l"
  by (induction l) (auto simp: sublist_Cons_right)

lemma quote_symbol_cases:
  "quote_symbol l = (if CHR 0x27 \<in> set l then [CHR 0x27] else [CHR 0x22])"
  by (simp add: quote_symbol_def sublist_single)

lemma wrong_path_empty_shape:
  assumes "quote_symbol l = [q]" "q \<in> set l" "wrong_path l = []"
  shows "\<exists>a b. q \<notin> set a \<and> q \<notin> set b \<and> (l = a @ [q] @ b \<or> l = a @ [q, q] @ b)"
proof -
  from split_list_first [OF assms(2)] obtain a r where ar: "l = a @ q # r" "q \<notin> set a" by blast
  show ?thesis
  proof (cases "q \<in> set r")
    case False
    with ar show ?thesis by auto
  next
    case True
    from split_list_last [OF this] obtain m b where mb: "r = m @ q # b" "q \<notin> set b" by blast
    have l: "l = a @ [q] @ m @ [q] @ b" using ar(1) mb(1) by simp
    from wrong_path_quoted [OF assms(1) l ar(2) mb(2)] assms(3) have "m = []" by simp
    with l ar(2) mb(2) show ?thesis by auto
  qed
qed

lemma rewritten_line:
  assumes "quote_symbol t = [q]" "t = a @ [q] @ w @ [q] @ b"
    and "q \<notin> set a" "q \<notin> set w" "q \<notin> set b" "w \<noteq> []"
    and "CHR 0x27 \<notin> set P" "CHR 0x22 \<notin> set P"
  shows "quote_symbol (py_replace_ne w P t) = [q] \<and> wrong_path (py_replace_ne w P t) = P \<and>
         sublist P (py_replace_ne w P t)"
proof -
  let ?R = "py_replace_ne w P"
  have q: "q = CHR 0x27 \<or> q = CHR 0x22" using assms(1) by (auto simp: quote_symbol_cases split: if_splits)
  then have qP: "q \<notin> set P" using assms(7,8) by auto
  have "?R (a @ q # (w @ q # b)) = ?R a @ q # ?R (w @ q # b)"
    using assms(6,4) by (rule py_replace_ne_barrier)
  moreover have "?R (w @ q # b) = P @ ?R (q # b)" using assms(6) by (rule py_replace_ne_hit)
  moreover have "?R ([] @ q # b) = ?R [] @ q # ?R b" using assms(6,4) by (rule py_replace_ne_barrier)
  ultimately have N: "?R t = ?R a @ [q] @ P @ [q] @ ?R b" using assms(2) by simp
  have A: "q \<notin> set (?R a)" using set_py_replace_ne [of w P a] assms(3) qP by auto
  have B: "q \<notin> set (?R b)" using set_py_replace_ne [of w P b] assms(5) qP by auto
  have "quote_symbol (?R t) = [q]"
  proof (cases "q = CHR 0x27")
    case True
    then have "CHR 0x27 \<in> set (?R t)" using N by simp
    with True show ?thesis by (simp add: quote_symbol_cases)
  next
    case False
    then have "CHR 0x27 \<notin> set t" using assms(1) by (auto simp: quote_symbol_cases split: if_splits)
    then have "CHR 0x27 \<notin> set (?R t)" using set_py_replace_ne [of w P t] assms(7) by auto
    with False q show ?thesis by (simp add: quote_symbol_cases)
  qed
  moreover from this N A B have "wrong_path (?R t) = P" by (rule wrong_path_quoted)
  moreover have "sublist P ((?R a @ [q]) @ P @ ([q] @ ?R b))" by (rule sublist_appendI)
  then have "sublist P (?R t)" unfolding N by simp
  ultimately show ?thesis by blast
qed


lemma sublist_trans: "sublist a b \<Longrightarrow> sublist b c \<Longrightarrow> sublist a c"
proof -
  assume "sublist a b" "sublist b c"
  then obtain p s p' s' where "b = p @ a @ s" "c = p' @ b @ s'" by (auto simp: sublist_def)
  then have "c = (p' @ p) @ a @ (s @ s')" by simp
  then show ?thesis unfolding sublist_def by blast
qed

lemma skipped_line_stays_skipped:
  assumes t: "quote_symbol t = [q]" "t = a @ [q] @ w @ [q] @ b"
      "q \<notin> set a" "q \<notin> set w" "q \<notin> set b" "w \<noteq> []"
    and csv: "sublist ''.csv'' t"
    and N: "CHR 0x27 \<notin> set t \<longrightarrow> CHR 0x27 \<notin> set N"
    and y: "\<not> sublist ''.csv'' y \<or> wrong_path y = []"
  shows "\<not> sublist ''.csv'' (py_replace_ne t N y) \<or> wrong_path (py_replace_ne t N y) = []"
proof (cases "sublist t y")
  case False
  then have "py_replace_ne t N y = y" by (rule py_replace_ne_absent)
  with y show ?thesis by simp
next
  case True
  let ?R = "py_replace_ne t N"
  have tne: "t \<noteq> []" using t(2) by simp
  have "sublist ''.csv'' y" using csv True by (rule sublist_trans)
  with y have wy: "wrong_path y = []" by simp
  from True obtain ps ss where pss: "y = ps @ t @ ss" by (auto simp: sublist_def)
  have qt: "q \<in> set t" using t(2) by simp
  then have qy: "q \<in> set y" using pss by simp
  have qq: "q = CHR 0x27 \<or> q = CHR 0x22"
    using t(1) by (auto simp: quote_symbol_cases split: if_splits)
  obtain p where p: "quote_symbol y = [p]" "p \<in> set y"
    using qy qq by (cases "CHR 0x27 \<in> set y") (auto simp: quote_symbol_cases)
  from wrong_path_empty_shape [OF p wy] obtain x z
    where xz: "p \<notin> set x" "p \<notin> set z" and shape: "y = x @ [p] @ z \<or> y = x @ [p, p] @ z"
    by blast
  show ?thesis
  proof (cases "p = q")
    case True
    have fa: "filter (\<lambda>c. c = q) a = []" "filter (\<lambda>c. c = q) w = []" "filter (\<lambda>c. c = q) b = []"
      using t(3,4,5) by (auto simp: filter_empty_conv)
    have fx: "filter (\<lambda>c. c = q) x = []" "filter (\<lambda>c. c = q) z = []"
      using xz True by (auto simp: filter_empty_conv)
    have ft: "filter (\<lambda>c. c = q) t = [q, q]" using t(2) fa by simp
    then have fy: "filter (\<lambda>c. c = q) y = filter (\<lambda>c. c = q) ps @ [q, q] @ filter (\<lambda>c. c = q) ss"
      using pss by simp
    from shape have "filter (\<lambda>c. c = q) y = [q] \<or> filter (\<lambda>c. c = q) y = [q, q]"
      using fx True by auto
    with fy have "filter (\<lambda>c. c = q) ps = [] \<and> filter (\<lambda>c. c = q) ss = []"
      by (auto simp: append_eq_Cons_conv Cons_eq_append_conv)
    then have "q \<notin> set (ps @ a)" "q \<notin> set (b @ ss)"
      using t(3,5) by (auto simp: filter_empty_conv)
    moreover have "y = (ps @ a) @ [q] @ w @ [q] @ (b @ ss)" using pss t(2) by simp
    moreover have "quote_symbol y = [q]" using p(1) True by simp
    ultimately have "wrong_path y = w" by (intro wrong_path_quoted [of y q "ps @ a" w "b @ ss"])
    with wy t(6) show ?thesis by simp
  next
    case False
    have p27: "p = CHR 0x27"
    proof (rule ccontr)
      assume "p \<noteq> CHR 0x27"
      then have "CHR 0x27 \<notin> set y" "p = CHR 0x22"
        using p(1) by (auto simp: quote_symbol_cases split: if_splits)
      with qy qq False show False by auto
    qed
    then have "q = CHR 0x22" using qq False by auto
    then have "CHR 0x27 \<notin> set t" using t(1) by (auto simp: quote_symbol_cases split: if_splits)
    with N p27 have pt: "p \<notin> set t" and pN: "p \<notin> set N" by simp_all
    have Rx: "p \<notin> set (?R x)" using set_py_replace_ne [of t N x] xz(1) pN by auto
    have Rz: "p \<notin> set (?R z)" using set_py_replace_ne [of t N z] xz(2) pN by auto
    have one: "?R (x @ p # s) = ?R x @ p # ?R s" for s
      using tne pt by (rule py_replace_ne_barrier)
    have two: "?R (p # s) = p # ?R s" for s
      using py_replace_ne_barrier [OF tne pt, of N "[]" s] by simp
    from shape have Ry: "?R y = ?R x @ [p] @ ?R z \<or> ?R y = ?R x @ [p] @ [] @ [p] @ ?R z"
      using one [of z] one [of "p # z"] two [of z] by auto
    then have "p \<in> set (?R y)" by auto
    then have qs: "quote_symbol (?R y) = [p]" using p27 by (simp add: quote_symbol_cases)
    from Ry have "wrong_path (?R y) = []"
    proof
      assume "?R y = ?R x @ [p] @ ?R z"
      with qs show ?thesis using Rx Rz by (intro wrong_path_single [of "?R y" p "?R x" "?R z"])
    next
      assume "?R y = ?R x @ [p] @ [] @ [p] @ ?R z"
      with qs show ?thesis using Rx Rz by (intro wrong_path_quoted [of "?R y" p "?R x" "[]" "?R z"])
    qed
    then show ?thesis ..
  qed
qed


lemma wrong_path_encloses_nothing:
  assumes "quote_symbol l = [q]" "q \<notin> set a" "q \<notin> set b" "l = a @ [q] @ b \<or> l = a @ [q, q] @ b"
  shows "wrong_path l = []"
  using assms(4)
proof
  assume "l = a @ [q] @ b"
  with assms(1,2,3) show ?thesis by (intro wrong_path_single [of l q a b])
next
  assume "l = a @ [q, q] @ b"
  then have "l = a @ [q] @ [] @ [q] @ b" by simp
  with assms(1,2,3) show ?thesis by (intro wrong_path_quoted [of l q a "[]" b])
qed

lemma skipped_of_shape:
  assumes "\<forall>l \<in> S. sublist ''.csv'' l \<longrightarrow>
            (\<exists>a q b. quote_symbol l = [q] \<and> q \<notin> set a \<and> q \<notin> set b \<and>
                       (l = a @ [q] @ b \<or> l = a @ [q, q] @ b))"
  shows "\<forall>l \<in> S. \<not> sublist ''.csv'' l \<or> wrong_path l = []"
proof
  fix l assume l: "l \<in> S"
  show "\<not> sublist ''.csv'' l \<or> wrong_path l = []"
  proof (cases "sublist ''.csv'' l")
    case False
    then show ?thesis ..
  next
    case True
    with assms l have "\<exists>a q b. quote_symbol l = [q] \<and> q \<notin> set a \<and> q \<notin> set b \<and>
                       (l = a @ [q] @ b \<or> l = a @ [q, q] @ b)" by simp
    then obtain a q b where "quote_symbol l = [q]" "q \<notin> set a" "q \<notin> set b"
      "l = a @ [q] @ b \<or> l = a @ [q, q] @ b" by (elim exE conjE)
    then have "wrong_path l = []" by (rule wrong_path_encloses_nothing)
    then show ?thesis ..
  qed
qed

text \<open>
  Claim C9, as the code has it. Rewriting twice gives the same code as rewriting once
  in two cases. In the first, every line with \<open>.csv\<close> contains its quote character with
  nothing enclosed, and nothing is rewritten. In the second, the lines with \<open>.csv\<close> before
  some line \<open>t\<close> are of that kind, \<open>t\<close> has \<open>.csv\<close> and its quote character exactly twice,
  around a non-empty substring, and the local path contains \<open>.csv\<close> and neither a quote
  character nor a line boundary: the second pass comes to the rewritten line first and
  replaces the local path by itself. The lines after \<open>t\<close> are arbitrary.
\<close>

theorem update_dataset_local_path_idempotent:
  assumes
    "(\<forall>l \<in> set (splitlines code). sublist ''.csv'' l \<longrightarrow>
        (\<exists>a q b. quote_symbol l = [q] \<and> q \<notin> set a \<and> q \<notin> set b \<and>
                   (l = a @ [q] @ b \<or> l = a @ [q, q] @ b))) \<or>
     (sublist ''.csv'' (path_join datasets_path filename) \<and>
      (\<forall>c \<in> set (path_join datasets_path filename).
         \<not> is_linebreak c \<and> c \<noteq> CHR 0x27 \<and> c \<noteq> CHR 0x22) \<and>
      (\<exists>pre t post q a w b.
         splitlines code = pre @ [t] @ post \<and>
         (\<forall>l \<in> set pre. sublist ''.csv'' l \<longrightarrow>
            (\<exists>a q b. quote_symbol l = [q] \<and> q \<notin> set a \<and> q \<notin> set b \<and>
                       (l = a @ [q] @ b \<or> l = a @ [q, q] @ b))) \<and>
         sublist ''.csv'' t \<and> quote_symbol t = [q] \<and> t = a @ [q] @ w @ [q] @ b \<and>
         q \<notin> set a \<and> q \<notin> set w \<and> q \<notin> set b \<and> w \<noteq> []))"
  shows "update_dataset_local_path (update_dataset_local_path code filename datasets_path)
           filename datasets_path =
         update_dataset_local_path code filename datasets_path"
  using assms
proof
  assume "\<forall>l \<in> set (splitlines code). sublist ''.csv'' l \<longrightarrow>
        (\<exists>a q b. quote_symbol l = [q] \<and> q \<notin> set a \<and> q \<notin> set b \<and>
                   (l = a @ [q] @ b \<or> l = a @ [q, q] @ b))"
  then have "\<forall>l \<in> set (splitlines code). \<not> sublist ''.csv'' l \<or> wrong_path l = []"
    by (rule skipped_of_shape)
  from update_loop_skip [OF this, of _ "[]"]
  have "update_dataset_local_path code filename datasets_path = code"
    by (simp add: update_dataset_local_path_def)
  then show ?thesis by simp
next
  assume h: "sublist ''.csv'' (path_join datasets_path filename) \<and>
      (\<forall>c \<in> set (path_join datasets_path filename).
         \<not> is_linebreak c \<and> c \<noteq> CHR 0x27 \<and> c \<noteq> CHR 0x22) \<and>
      (\<exists>pre t post q a w b.
         splitlines code = pre @ [t] @ post \<and>
         (\<forall>l \<in> set pre. sublist ''.csv'' l \<longrightarrow>
            (\<exists>a q b. quote_symbol l = [q] \<and> q \<notin> set a \<and> q \<notin> set b \<and>
                       (l = a @ [q] @ b \<or> l = a @ [q, q] @ b))) \<and>
         sublist ''.csv'' t \<and> quote_symbol t = [q] \<and> t = a @ [q] @ w @ [q] @ b \<and>
         q \<notin> set a \<and> q \<notin> set w \<and> q \<notin> set b \<and> w \<noteq> [])"
  define path where "path = path_join datasets_path filename"
  note h1 = h [THEN conjunct1] and h2 = h [THEN conjunct2, THEN conjunct1]
    and h3 = h [THEN conjunct2, THEN conjunct2]
  have Pcsv: "sublist ''.csv'' path" using h1 by (simp add: path_def)
  then have Pne: "path \<noteq> []" by auto
  have P27: "CHR 0x27 \<notin> set path" and P22: "CHR 0x22 \<notin> set path"
    and Pfree: "\<forall>c \<in> set path. \<not> is_linebreak c"
    using h2 by (auto simp: path_def)
  from h3 obtain pre t post q a w b
    where lines': "splitlines code = pre @ [t] @ post"
      and shapes: "\<forall>l \<in> set pre. sublist ''.csv'' l \<longrightarrow>
            (\<exists>a q b. quote_symbol l = [q] \<and> q \<notin> set a \<and> q \<notin> set b \<and>
                       (l = a @ [q] @ b \<or> l = a @ [q, q] @ b))"
      and csv: "sublist ''.csv'' t"
      and t: "quote_symbol t = [q]" "t = a @ [q] @ w @ [q] @ b"
        "q \<notin> set a" "q \<notin> set w" "q \<notin> set b"
      and w_ne: "w \<noteq> []"
    by (elim exE conjE)
  have pre': "\<forall>y \<in> set pre. \<not> sublist ''.csv'' y \<or> wrong_path y = []"
    using shapes by (rule skipped_of_shape)
  have lines: "splitlines code = pre @ t # post" using lines' by simp
  have tin: "t \<in> set (splitlines code)" using lines by simp
  have w: "wrong_path t = w" using t(1,2,3,5) by (rule wrong_path_quoted)
  then have wne: "wrong_path t \<noteq> []" using w_ne by simp
  define N where "N = py_replace_ne w path t"
  have tne: "t \<noteq> []" using t(2) by simp
  have tfree: "\<forall>c \<in> set t. \<not> is_linebreak c" using splitlines_no_linebreak [OF tin] by blast
  from rewritten_line [OF t w_ne P27 P22]
  have Nq: "quote_symbol N = [q]" and Nw: "wrong_path N = path" and NP: "sublist path N"
    by (simp_all add: N_def)
  have Nset: "set N \<subseteq> set t \<union> set path" unfolding N_def by (rule set_py_replace_ne)
  have Nne: "N \<noteq> []" using NP Pne by auto
  have Nfree: "\<forall>c \<in> set N. \<not> is_linebreak c" using Nset tfree Pfree by auto
  have Ncsv: "sublist ''.csv'' N" using Pcsv NP by (rule sublist_trans)
  have N27: "CHR 0x27 \<notin> set t \<longrightarrow> CHR 0x27 \<notin> set N" using Nset P27 by auto
  let ?R = "py_replace_ne t N"
  have first: "update_dataset_local_path code filename datasets_path = ?R code"
    using update_dataset_local_path_first_line [OF lines' pre' csv wne, of filename datasets_path]
    by (simp add: N_def w py_replace_def w_ne path_def)
  have "?R (t @ []) = N @ ?R []" using tne by (rule py_replace_ne_hit)
  then have Rt: "?R t = N" by simp
  have "splitlines (?R code) = map ?R (splitlines code)"
    using tne tfree Nne Nfree by (rule splitlines_py_replace_ne)
  then have lines2: "splitlines (?R code) = map ?R pre @ [N] @ map ?R post"
    using lines Rt by simp
  have pre2: "\<forall>y \<in> set (map ?R pre). \<not> sublist ''.csv'' y \<or> wrong_path y = []"
    using pre' skipped_line_stays_skipped [OF t w_ne csv N27] by auto
  have Nw': "wrong_path N \<noteq> []" using Nw Pne by simp
  have "update_dataset_local_path (?R code) filename datasets_path =
        py_replace_ne N (py_replace N (wrong_path N) (path_join datasets_path filename)) (?R code)"
    using lines2 pre2 Ncsv Nw' by (rule update_dataset_local_path_first_line)
  also have "py_replace N (wrong_path N) (path_join datasets_path filename) = N"
    using Pne by (simp add: Nw py_replace_def py_replace_ne_same path_def [symmetric])
  also have "py_replace_ne N N (?R code) = ?R code" using Nne by (rule py_replace_ne_same)
  finally show ?thesis unfolding first .
qed

theorem update_dataset_local_path_idempotent_witness:
  "update_dataset_local_path
     (update_dataset_local_path
        (''# can'' @ [CHR 0x27] @ ''t find a.csv?\<newline>a = pd.read_csv('' @ [CHR 0x27] @ ''a.csv'' @ [CHR 0x27] @ '')\<newline># wrote out.csv'')
        ''sales.csv'' ''datasets'')
     ''sales.csv'' ''datasets''
   = ''# can'' @ [CHR 0x27] @ ''t find a.csv?\<newline>a = pd.read_csv('' @ [CHR 0x27] @ ''datasets/sales.csv'' @ [CHR 0x27] @ '')\<newline># wrote out.csv''"
proof -
  let ?c = "''# can'' @ [CHR 0x27] @ ''t find a.csv?\<newline>a = pd.read_csv('' @ [CHR 0x27] @ ''a.csv'' @ [CHR 0x27] @ '')\<newline># wrote out.csv''"
  let ?l0 = "''# can'' @ [CHR 0x27] @ ''t find a.csv?''"
  let ?l1 = "''a = pd.read_csv('' @ [CHR 0x27] @ ''a.csv'' @ [CHR 0x27] @ '')''"
  have p1: "sublist ''.csv'' (path_join ''datasets'' ''sales.csv'')" by code_simp
  have p2: "\<forall>c \<in> set (path_join ''datasets'' ''sales.csv'').
              \<not> is_linebreak c \<and> c \<noteq> CHR 0x27 \<and> c \<noteq> CHR 0x22"
    by code_simp
  have lines: "splitlines ?c = [?l0] @ [?l1] @ [''# wrote out.csv'']" by code_simp
  have q0: "quote_symbol ?l0 = [CHR 0x27]" and q1: "quote_symbol ?l1 = [CHR 0x27]" by code_simp+
  have s0: "\<exists>a q b. quote_symbol ?l0 = [q] \<and> q \<notin> set a \<and> q \<notin> set b \<and>
                  (?l0 = a @ [q] @ b \<or> ?l0 = a @ [q, q] @ b)"
    by (rule exI [of _ "''# can''"], rule exI [of _ "CHR 0x27"], rule exI [of _ "''t find a.csv?''"],
        rule conjI [OF q0]) simp
  have pre: "\<forall>l \<in> set [?l0]. sublist ''.csv'' l \<longrightarrow>
            (\<exists>a q b. quote_symbol l = [q] \<and> q \<notin> set a \<and> q \<notin> set b \<and>
                       (l = a @ [q] @ b \<or> l = a @ [q, q] @ b))"
    using s0 by simp
  have csv: "sublist ''.csv'' ?l1" by code_simp
  have ex: "\<exists>pre t post q a w b.
         splitlines ?c = pre @ [t] @ post \<and>
         (\<forall>l \<in> set pre. sublist ''.csv'' l \<longrightarrow>
            (\<exists>a q b. quote_symbol l = [q] \<and> q \<notin> set a \<and> q \<notin> set b \<and>
                       (l = a @ [q] @ b \<or> l = a @ [q, q] @ b))) \<and>
         sublist ''.csv'' t \<and> quote_symbol t = [q] \<and> t = a @ [q] @ w @ [q] @ b \<and>
         q \<notin> set a \<and> q \<notin> set w \<and> q \<notin> set b \<and> w \<noteq> []"
    by (rule exI [of _ "[?l0]"], rule exI [of _ ?l1], rule exI [of _ "[''# wrote out.csv'']"],
        rule exI [of _ "CHR 0x27"], rule exI [of _ "''a = pd.read_csv(''"],
        rule exI [of _ "''a.csv''"], rule exI [of _ "'')''"])
      (intro conjI; (rule lines pre csv q1 | simp))
  have once: "update_dataset_local_path ?c ''sales.csv'' ''datasets''
      = ''# can'' @ [CHR 0x27] @ ''t find a.csv?\<newline>a = pd.read_csv('' @ [CHR 0x27] @ ''datasets/sales.csv'' @ [CHR 0x27] @ '')\<newline># wrote out.csv''"
    by code_simp
  have "sublist ''.csv'' (path_join ''datasets'' ''sales.csv'') \<and>
      (\<forall>c \<in> set (path_join ''datasets'' ''sales.csv'').
         \<not> is_linebreak c \<and> c \<noteq> CHR 0x27 \<and> c \<noteq> CHR 0x22) \<and>
      (\<exists>pre t post q a w b.
         splitlines ?c = pre @ [t] @ post \<and>
         (\<forall>l \<in> set pre. sublist ''.csv'' l \<longrightarrow>
            (\<exists>a q b. quote_symbol l = [q] \<and> q \<notin> set a \<and> q \<notin> set b \<and>
                       (l = a @ [q] @ b \<or> l = a @ [q, q] @ b))) \<and>
         sublist ''.csv'' t \<and> quote_symbol t = [q] \<and> t = a @ [q] @ w @ [q] @ b \<and>
         q \<notin> set a \<and> q \<notin> set w \<and> q \<notin> set b \<and> w \<noteq> [])"
    by (intro conjI p1 p2 ex)
  then have "update_dataset_local_path (update_dataset_local_path ?c ''sales.csv'' ''datasets'')
           ''sales.csv'' ''datasets'' =
         update_dataset_local_path ?c ''sales.csv'' ''datasets''"
    by (intro update_dataset_local_path_idempotent disjI2)
  then show ?thesis unfolding once .
qed

text \<open>
  With the file name \<open>sales.xlsx\<close> the first pass rewrites the first line, which then
  has no \<open>.csv\<close>, and the second pass rewrites the second line.
\<close>

theorem update_dataset_local_path_twice_counterexample:
  "update_dataset_local_path
     (update_dataset_local_path
        (''a = pd.read_csv('' @ [CHR 0x27] @ ''a.csv'' @ [CHR 0x27] @ '')\<newline>b = pd.read_csv('' @ [CHR 0x27] @ ''b.csv'' @ [CHR 0x27] @ '')'')
        ''sales.xlsx'' ''datasets'')
     ''sales.xlsx'' ''datasets''
   = ''a = pd.read_csv('' @ [CHR 0x27] @ ''datasets/sales.xlsx'' @ [CHR 0x27] @ '')\<newline>b = pd.read_csv('' @ [CHR 0x27] @ ''datasets/sales.xlsx'' @ [CHR 0x27] @ '')'' \<and>
   update_dataset_local_path
        (''a = pd.read_csv('' @ [CHR 0x27] @ ''a.csv'' @ [CHR 0x27] @ '')\<newline>b = pd.read_csv('' @ [CHR 0x27] @ ''b.csv'' @ [CHR 0x27] @ '')'')
        ''sales.xlsx'' ''datasets''
   = ''a = pd.read_csv('' @ [CHR 0x27] @ ''datasets/sales.xlsx'' @ [CHR 0x27] @ '')\<newline>b = pd.read_csv('' @ [CHR 0x27] @ ''b.csv'' @ [CHR 0x27] @ '')''"
  by code_simp

section \<open>Properties of the Executor and of the Batch Driver\<close>









text \<open>
  Claim C6, as the code has it. Let the removal of the old artifacts have succeeded
  (there is none without \<open>save_output\<close>) and the snippet have run. Then \<open>execute_code\<close>
  returns the captured output when the snippet completes; the description with the
  error's own line number when the snippet raises a \<open>SyntaxError\<close> with at least one
  argument; the description with the line number of the second frame when it raises
  another \<open>Exception\<close> with at least one argument and a traceback of at least two frames;
  in each case provided that, with \<open>save_output\<close>, the file that is to hold the result
  can be written (no file is written for an empty output).
\<close>

theorem execute_code_returns:
  assumes "remove_old_artifacts save_output ident out_dir err_dir fs = (None, fs1)"
    and "exec code fs1 = (outcome, fs2)"
  shows
   "(outcome = Completed out \<and>
     (save_output \<and> out \<noteq> [] \<longrightarrow> fst (write_file fs2 (output_path out_dir ident) out) = None) \<longrightarrow>
       fst (execute_code exec code save_output ident out_dir err_dir fs) = Inr out) \<and>
    (outcome = Raised err \<and> exc_clause err = Syntax_Error_Clause \<and> exc_args err = detail # others \<and>
     (save_output \<longrightarrow>
        fst (write_file fs2 (error_path err_dir ident)
               (exc_class_name err @ '' at line '' @ format_lineno (exc_lineno err) @ '': '' @ detail))
          = None) \<longrightarrow>
       fst (execute_code exec code save_output ident out_dir err_dir fs) =
         Inr (exc_class_name err @ '' at line '' @ format_lineno (exc_lineno err) @ '': '' @ detail)) \<and>
    (outcome = Raised err \<and> exc_clause err = Exception_Clause \<and> exc_args err = detail # others \<and>
     exc_traceback err = caller # frame # frames \<and>
     (save_output \<longrightarrow>
        fst (write_file fs2 (error_path err_dir ident)
               (exc_class_name err @ '' at line '' @ format_lineno (frame_lineno frame) @ '': '' @ detail))
          = None) \<longrightarrow>
       fst (execute_code exec code save_output ident out_dir err_dir fs) =
         Inr (exc_class_name err @ '' at line '' @ format_lineno (frame_lineno frame) @ '': '' @ detail))"
  using assms
  by (auto simp: execute_code_def classify_def error_description_def split: prod.splits option.splits)

theorem execute_code_returns_witness:
  "fst (execute_code (pure_run (Completed ''2\<newline>'')) ''print(1+1)'' False ''r1'' ''outputs'' ''errors''
          (sound_fs Map.empty))
     = Inr ''2\<newline>'' \<and>
   fst (execute_code (pure_run (Raised zero_division_error)) ''1/0'' True ''r1'' ''outputs'' ''errors''
          (sound_fs Map.empty))
     = Inr ''ZeroDivisionError at line 1: division by zero''"
proof -
  have c1: "remove_old_artifacts False ''r1'' ''outputs'' ''errors'' (sound_fs Map.empty)
            = (None, sound_fs Map.empty)"
    by (simp add: remove_old_artifacts_def)
  have r1: "pure_run (Completed ''2\<newline>'') ''print(1+1)'' (sound_fs Map.empty)
            = (Completed ''2\<newline>'', sound_fs Map.empty)"
    by (simp add: pure_run_def)
  have c2: "remove_old_artifacts True ''r1'' ''outputs'' ''errors'' (sound_fs Map.empty)
            = (None, sound_fs Map.empty)"
    by (simp add: remove_old_artifacts_def remove_suppressed_def os_remove_def sound_fs_def)
  have r2: "pure_run (Raised zero_division_error) ''1/0'' (sound_fs Map.empty)
            = (Raised zero_division_error, sound_fs Map.empty)"
    by (simp add: pure_run_def)
  have d: "exc_class_name zero_division_error @ '' at line '' @
             format_lineno (frame_lineno (module_frame 1)) @ '': '' @ ''division by zero''
           = ''ZeroDivisionError at line 1: division by zero''"
    by code_simp
  have b: "Raised zero_division_error = Raised zero_division_error \<and>
           exc_clause zero_division_error = Exception_Clause \<and>
           exc_args zero_division_error = ''division by zero'' # [] \<and>
           exc_traceback zero_division_error = exec_frame # module_frame 1 # [] \<and>
           (True \<longrightarrow>
              fst (write_file (sound_fs Map.empty) (error_path ''errors'' ''r1'')
                     (exc_class_name zero_division_error @ '' at line '' @
                      format_lineno (frame_lineno (module_frame 1)) @ '': '' @ ''division by zero''))
                = None)"
    by (simp add: zero_division_error_def write_file_def sound_fs_def)
  have a: "Completed ''2\<newline>'' = Completed ''2\<newline>'' \<and>
           (False \<and> ''2\<newline>'' \<noteq> [] \<longrightarrow>
              fst (write_file (sound_fs Map.empty) (output_path ''outputs'' ''r1'') ''2\<newline>'') = None)"
    by simp
  from a execute_code_returns [where exec = "pure_run (Completed ''2\<newline>'')" and code = "''print(1+1)''"
      and out = "''2\<newline>''", OF c1 r1]
  have "fst (execute_code (pure_run (Completed ''2\<newline>'')) ''print(1+1)'' False ''r1'' ''outputs'' ''errors''
          (sound_fs Map.empty)) = Inr ''2\<newline>''" by blast
  moreover from b execute_code_returns [where exec = "pure_run (Raised zero_division_error)"
      and code = "''1/0''" and err = zero_division_error
      and detail = "''division by zero''" and others = "[]" and caller = exec_frame
      and frame = "module_frame 1" and frames = "[]", OF c2 r2]
  have "fst (execute_code (pure_run (Raised zero_division_error)) ''1/0'' True ''r1'' ''outputs'' ''errors''
          (sound_fs Map.empty))
     = Inr (exc_class_name zero_division_error @ '' at line '' @
             format_lineno (frame_lineno (module_frame 1)) @ '': '' @ ''division by zero'')" by blast
  ultimately show ?thesis unfolding d by blast
qed

text \<open>
  \<open>SystemExit\<close> is not an \<open>Exception\<close>: neither handler catches it, and it leaves
  \<open>execute_code\<close>. And with \<open>save_output\<close>, when the output file cannot be opened (the
  directory is missing), the error of \<open>open\<close> leaves \<open>execute_code\<close> though the snippet
  completed.
\<close>

theorem execute_code_returns_counterexample:
  "fst (execute_code (pure_run (Raised system_exit)) ''import sys\<newline>sys.exit(1)'' True ''r1''
          ''outputs'' ''errors'' (sound_fs Map.empty)) = Inl (Uncaught system_exit) \<and>
   fst (execute_code (pure_run (Completed ''2\<newline>'')) ''print(1+1)'' True ''r1'' ''outputs'' ''errors''
          ((sound_fs Map.empty)\<lparr>open_fault := [''outputs/r1_output.txt'' \<mapsto> FileNotFoundError]\<rparr>))
     = Inl (OS_Error FileNotFoundError)"
  by code_simp

text \<open>
  Claim C10. When the snippet raises an exception with an empty \<open>args\<close>, \<open>execute_code\<close>
  returns no description: an error leaves it, and for an exception that one of the two
  handlers catches this error is the \<open>IndexError\<close> of \<open>err.args[0]\<close> (the snippet runs only
  once the old artifacts are removed). In the batch the error ends the run: the rows
  after the failing one are not processed.
\<close>

theorem execute_code_empty_args:
  assumes "exc_args err = []"
  shows "(fst (exec code (snd (remove_old_artifacts save_output ident out_dir err_dir fs))) = Raised err \<longrightarrow>
           (\<exists>e. fst (execute_code exec code save_output ident out_dir err_dir fs) = Inl e) \<and>
           (exc_clause err \<noteq> No_Clause \<and>
            fst (remove_old_artifacts save_output ident out_dir err_dir fs) = None \<longrightarrow>
              fst (execute_code exec code save_output ident out_dir err_dir fs) = Inl IndexError)) \<and>
         (row_code r \<noteq> [] \<and> exc_clause err \<noteq> No_Clause \<and>
          fst (save_script (row_script g r) (row_id r) (SCRIPTS_PATH g) (files w)) = None \<and>
          fst (remove_old_artifacts True (row_id r) (EXECUTION_OUTPUTS_PATH g) (EXECUTION_ERRORS_PATH g)
                 (snd (save_script (row_script g r) (row_id r) (SCRIPTS_PATH g) (files w)))) = None \<and>
          fst (exec (row_script g r)
                (snd (remove_old_artifacts True (row_id r) (EXECUTION_OUTPUTS_PATH g)
                        (EXECUTION_ERRORS_PATH g)
                        (snd (save_script (row_script g r) (row_id r) (SCRIPTS_PATH g) (files w))))))
            = Raised err \<longrightarrow>
            fst (process_rows g exec row_number (r # rs) w) = Some IndexError \<and>
            process_rows g exec row_number (r # rs) w = process_rows g exec row_number [r] w \<and>
            fst (extract_and_save_scripts_from_sheets g exec ((r # rs) # sheets) w) = Some IndexError)"
proof -
  have cls: "classify err = (if exc_clause err = No_Clause then Inl (Uncaught err) else Inl IndexError)"
    using assms by (cases "exc_clause err") (simp_all add: classify_def)
  have ex: "fst (execute_code exec c s i d e f) =
            (case fst (remove_old_artifacts s i d e f) of
               Some x \<Rightarrow> Inl (OS_Error x)
             | None \<Rightarrow> if exc_clause err = No_Clause then Inl (Uncaught err) else Inl IndexError)"
    if raised: "fst (exec c (snd (remove_old_artifacts s i d e f))) = Raised err" for c s i d e f
  proof -
    obtain x fs1 where clean: "remove_old_artifacts s i d e f = (x, fs1)"
      by (cases "remove_old_artifacts s i d e f")
    obtain fs2 where "exec c fs1 = (Raised err, fs2)"
      using raised clean by (cases "exec c fs1") simp
    then show ?thesis using clean by (cases x) (simp_all add: execute_code_def cls)
  qed
  have rows: "fst (process_rows g exec n (r # rs') w') = Some IndexError \<and>
              process_rows g exec n (r # rs') w' = process_rows g exec n [r] w'"
    if p: "row_code r \<noteq> []" "exc_clause err \<noteq> No_Clause" "files w' = files w"
      "fst (save_script (row_script g r) (row_id r) (SCRIPTS_PATH g) (files w)) = None"
      "fst (remove_old_artifacts True (row_id r) (EXECUTION_OUTPUTS_PATH g) (EXECUTION_ERRORS_PATH g)
                 (snd (save_script (row_script g r) (row_id r) (SCRIPTS_PATH g) (files w)))) = None"
      "fst (exec (row_script g r)
                (snd (remove_old_artifacts True (row_id r) (EXECUTION_OUTPUTS_PATH g)
                        (EXECUTION_ERRORS_PATH g)
                        (snd (save_script (row_script g r) (row_id r) (SCRIPTS_PATH g) (files w))))))
            = Raised err"
    for n rs' w'
  proof -
    obtain fs0 where s: "save_script (row_script g r) (row_id r) (SCRIPTS_PATH g) (files w) = (None, fs0)"
      using p(4) by (cases "save_script (row_script g r) (row_id r) (SCRIPTS_PATH g) (files w)") simp
    let ?run = "execute_code exec (row_script g r) True (row_id r) (EXECUTION_OUTPUTS_PATH g)
                  (EXECUTION_ERRORS_PATH g) fs0"
    have "fst ?run = Inl IndexError" using ex [of "row_script g r" True "row_id r" "EXECUTION_OUTPUTS_PATH g"
         "EXECUTION_ERRORS_PATH g" fs0] p(2,5,6) s by simp
    then obtain fs2 where "?run = (Inl IndexError, fs2)" by (cases ?run) simp
    then show ?thesis using p(1,3) s by simp
  qed
  show ?thesis
  proof (intro conjI impI)
    assume "fst (exec code (snd (remove_old_artifacts save_output ident out_dir err_dir fs))) = Raised err"
    from ex [OF this] show "\<exists>e. fst (execute_code exec code save_output ident out_dir err_dir fs) = Inl e"
      by (simp split: option.splits)
  next
    assume "fst (exec code (snd (remove_old_artifacts save_output ident out_dir err_dir fs))) = Raised err"
      and "exc_clause err \<noteq> No_Clause \<and>
            fst (remove_old_artifacts save_output ident out_dir err_dir fs) = None"
    with ex show "fst (execute_code exec code save_output ident out_dir err_dir fs) = Inl IndexError"
      by simp
  next
    assume h: "row_code r \<noteq> [] \<and> exc_clause err \<noteq> No_Clause \<and>
          fst (save_script (row_script g r) (row_id r) (SCRIPTS_PATH g) (files w)) = None \<and>
          fst (remove_old_artifacts True (row_id r) (EXECUTION_OUTPUTS_PATH g) (EXECUTION_ERRORS_PATH g)
                 (snd (save_script (row_script g r) (row_id r) (SCRIPTS_PATH g) (files w)))) = None \<and>
          fst (exec (row_script g r)
                (snd (remove_old_artifacts True (row_id r) (EXECUTION_OUTPUTS_PATH g)
                        (EXECUTION_ERRORS_PATH g)
                        (snd (save_script (row_script g r) (row_id r) (SCRIPTS_PATH g) (files w))))))
            = Raised err"
    then have a: "row_code r \<noteq> []" and b: "exc_clause err \<noteq> No_Clause"
      and c: "fst (save_script (row_script g r) (row_id r) (SCRIPTS_PATH g) (files w)) = None"
      and d: "fst (remove_old_artifacts True (row_id r) (EXECUTION_OUTPUTS_PATH g) (EXECUTION_ERRORS_PATH g)
                 (snd (save_script (row_script g r) (row_id r) (SCRIPTS_PATH g) (files w)))) = None"
      and e: "fst (exec (row_script g r)
                (snd (remove_old_artifacts True (row_id r) (EXECUTION_OUTPUTS_PATH g)
                        (EXECUTION_ERRORS_PATH g)
                        (snd (save_script (row_script g r) (row_id r) (SCRIPTS_PATH g) (files w))))))
            = Raised err"
      by blast+
    from rows [OF a b refl c d e, of row_number rs]
    show "fst (process_rows g exec row_number (r # rs) w) = Some IndexError"
      and "process_rows g exec row_number (r # rs) w = process_rows g exec row_number [r] w"
      by blast+
    let ?w = "w\<lparr>console := console w @ [Sheet_Head (take 20 (r # rs))]\<rparr>"
    have "files ?w = files w" by simp
    from rows [OF a b this c d e, of 0 rs]
    have "fst (process_rows g exec 0 (r # rs) ?w) = Some IndexError" by blast
    then obtain w2 where "process_rows g exec 0 (r # rs) ?w = (Some IndexError, w2)"
      by (cases "process_rows g exec 0 (r # rs) ?w") auto
    then show "fst (extract_and_save_scripts_from_sheets g exec ((r # rs) # sheets) w) = Some IndexError"
      by (simp del: process_rows.simps)
  qed
qed

theorem execute_code_empty_args_witness:
  "fst (execute_code (pure_run (Raised value_error_no_args)) ''raise ValueError'' True ''r7''
          ''outputs'' ''errors'' (sound_fs Map.empty)) = Inl IndexError \<and>
   fst (process_rows sample_globals (pure_run (Raised value_error_no_args)) 0
          [\<lparr>row_id = ''r7'', row_code = ''```python\<newline>raise ValueError\<newline>```'', row_dataset = ''sales.csv''\<rparr>,
           \<lparr>row_id = ''r8'', row_code = ''```python\<newline>print(1+1)\<newline>```'', row_dataset = ''sales.csv''\<rparr>]
          \<lparr>files = sound_fs Map.empty, console = []\<rparr>) = Some IndexError"
proof -
  have args: "exc_args value_error_no_args = []" by (simp add: value_error_no_args_def)
  have cl: "exc_clause value_error_no_args \<noteq> No_Clause" by (simp add: value_error_no_args_def)
  note t = execute_code_empty_args [OF args]
  have "fst (pure_run (Raised value_error_no_args) ''raise ValueError''
               (snd (remove_old_artifacts True ''r7'' ''outputs'' ''errors'' (sound_fs Map.empty))))
          = Raised value_error_no_args \<and>
        exc_clause value_error_no_args \<noteq> No_Clause \<and>
        fst (remove_old_artifacts True ''r7'' ''outputs'' ''errors'' (sound_fs Map.empty)) = None"
    using cl by (simp add: pure_run_def remove_old_artifacts_def remove_suppressed_def os_remove_def
        sound_fs_def)
  with t [where exec = "pure_run (Raised value_error_no_args)" and code = "''raise ValueError''"
        and save_output = True and ident = "''r7''" and out_dir = "''outputs''" and err_dir = "''errors''"
        and fs = "sound_fs Map.empty"]
  have "fst (execute_code (pure_run (Raised value_error_no_args)) ''raise ValueError'' True ''r7''
          ''outputs'' ''errors'' (sound_fs Map.empty)) = Inl IndexError"
    by blast
  moreover have "fst (process_rows sample_globals (pure_run (Raised value_error_no_args)) 0
          [\<lparr>row_id = ''r7'', row_code = ''```python\<newline>raise ValueError\<newline>```'', row_dataset = ''sales.csv''\<rparr>,
           \<lparr>row_id = ''r8'', row_code = ''```python\<newline>print(1+1)\<newline>```'', row_dataset = ''sales.csv''\<rparr>]
          \<lparr>files = sound_fs Map.empty, console = []\<rparr>) = Some IndexError"
  proof -
    let ?r = "\<lparr>row_id = ''r7'', row_code = ''```python\<newline>raise ValueError\<newline>```'', row_dataset = ''sales.csv''\<rparr>"
    let ?w = "\<lparr>files = sound_fs Map.empty, console = []\<rparr>"
    have "row_code ?r \<noteq> [] \<and> exc_clause value_error_no_args \<noteq> No_Clause \<and>
          fst (save_script (row_script sample_globals ?r) (row_id ?r) (SCRIPTS_PATH sample_globals)
                 (files ?w)) = None \<and>
          fst (remove_old_artifacts True (row_id ?r) (EXECUTION_OUTPUTS_PATH sample_globals)
                 (EXECUTION_ERRORS_PATH sample_globals)
                 (snd (save_script (row_script sample_globals ?r) (row_id ?r)
                         (SCRIPTS_PATH sample_globals) (files ?w)))) = None \<and>
          fst (pure_run (Raised value_error_no_args) (row_script sample_globals ?r)
                (snd (remove_old_artifacts True (row_id ?r) (EXECUTION_OUTPUTS_PATH sample_globals)
                        (EXECUTION_ERRORS_PATH sample_globals)
                        (snd (save_script (row_script sample_globals ?r) (row_id ?r)
                                (SCRIPTS_PATH sample_globals) (files ?w))))))
            = Raised value_error_no_args"
      by (intro conjI cl) code_simp+
    with t [where exec = "pure_run (Raised value_error_no_args)" and g = sample_globals
        and r = ?r and w = ?w and row_number = 0
        and rs = "[\<lparr>row_id = ''r8'', row_code = ''```python\<newline>print(1+1)\<newline>```'', row_dataset = ''sales.csv''\<rparr>]"]
    show ?thesis by blast
  qed
  ultimately show ?thesis by blast
qed




end
